theory Spec2Isabelle
  imports Main "HOL-Library.Multiset" "HOL-Library.Char_ord" "HOL-Library.List_Lexorder"
begin

section \<open>Data model\<close>

text \<open>
  A JavaScript value that is either a string or \<open>undefined\<close>: reading an array past
  its end (\<open>translatedTexts[idx]\<close>) or an absent object key (\<open>cache[key]\<close>)
  gives \<open>undefined\<close>, here \<open>None\<close>.
\<close>

type_synonym js_string = "string option"

text \<open>JavaScript truthiness of such a value: \<open>undefined\<close> and the empty string are falsy.\<close>

definition truthy :: "js_string \<Rightarrow> bool" where
  "truthy v = (case v of None \<Rightarrow> False | Some s \<Rightarrow> s \<noteq> [])"

text \<open>\<open>TranslationItem\<close> of the types module; the field \<open>text\<close> is \<open>item_text\<close> here.\<close>

record TranslationItem =
  contentType :: string
  contentId :: string
  item_text :: string

text \<open>\<open>DiscoveredContent\<close> and \<open>TranslationGap\<close> (src/types/content-sources.ts).\<close>

record DiscoveredContent = TranslationItem +
  sourceHash :: string

record TranslationGap = DiscoveredContent +
  missingLocales :: "string list"

text \<open>
  A row as \<open>getCachedTranslations\<close> returns it, and a row as \<open>saveTranslations\<close>
  receives it (its field \<open>locale\<close> is \<open>row_locale\<close> here). \<open>translated_text\<close> is
  declared a string; at run time the callers can put \<open>undefined\<close> there
  (\<open>translatedTexts[idx]\<close> past the end of the provider's answer).
\<close>

record CachedRow =
  content_type :: string
  content_id :: string
  translated_text :: js_string
  source_hash :: string

record SaveRow = CachedRow +
  row_locale :: string
  original_text :: string

record ViewTranslationMetadata =
  contentHash :: string
  lastTranslated :: string
  metaLocale :: string
  itemCount :: nat

text \<open>A thrown JavaScript \<open>Error\<close> with its message.\<close>

datatype error = Error string

section \<open>Content fingerprinting\<close>

text \<open>
  The SHA-256 hex digest is a library function (\<open>crypto.SHA256(s).toString()\<close> of
  crypto-js in the view coordinator, \<open>createHash('sha256').update(s).digest('hex')\<close>
  of node in the batch engine); it is the parameter \<open>H\<close> of every definition that hashes.
\<close>

type_synonym digest_fn = "string \<Rightarrow> string"

text \<open>\<open>Array.prototype.join\<close>.\<close>

fun join :: "string \<Rightarrow> string list \<Rightarrow> string" where
  "join sep [] = []"
| "join sep [x] = x"
| "join sep (x # y # ys) = x @ sep @ join sep (y # ys)"

text \<open>The template literal of part_001, line 105.\<close>

definition itemLine :: "TranslationItem \<Rightarrow> string" where
  "itemLine item = contentType item @ '':'' @ contentId item @ '':'' @ item_text item"

text \<open>
  part_001, lines 104-108. The default \<open>sort()\<close> orders strings by their code units,
  which is the lexicographic order on character lists.
\<close>

definition contentString :: "TranslationItem list \<Rightarrow> string" where
  "contentString items = join ''|'' (sort (map itemLine items))"

definition viewContentHash :: "digest_fn \<Rightarrow> TranslationItem list \<Rightarrow> string" where
  "viewContentHash H items = take 16 (H (contentString items))"

text \<open>The \<open>source_hash\<close> the view coordinator saves (part_001, line 196).\<close>

definition viewSourceHash :: "digest_fn \<Rightarrow> string \<Rightarrow> string" where
  "viewSourceHash H s = H s"

text \<open>The \<open>sourceHash\<close> the batch engine computes (cli/translate.ts, lines 64-68).\<close>

definition cliSourceHash :: "digest_fn \<Rightarrow> string \<Rightarrow> string" where
  "cliSourceHash H s = take 16 (H s)"

section \<open>The query surface of the view coordinator\<close>

type_synonym ViewTranslationCache = "string \<rightharpoonup> js_string"

text \<open>\<open>cache[key]\<close>: an absent key reads as \<open>undefined\<close>.\<close>

definition js_get :: "ViewTranslationCache \<Rightarrow> string \<Rightarrow> js_string" where
  "js_get c k = (case c k of None \<Rightarrow> None | Some v \<Rightarrow> v)"

definition cacheKey :: "string \<Rightarrow> string \<Rightarrow> string" where
  "cacheKey ct cid = ct @ '':'' @ cid"

text \<open>\<open>a || b\<close> on such a value: \<open>a\<close> when \<open>a\<close> is truthy, else \<open>b\<close>.\<close>

definition js_or :: "js_string \<Rightarrow> string \<Rightarrow> string" where
  "js_or v fallback = (case v of None \<Rightarrow> fallback | Some s \<Rightarrow> if s = [] then fallback else s)"

text \<open>
  part_001, lines 264-268. \<open>locale\<close> and \<open>defaultLocale\<close> are the values read at
  render (lines 88-89), \<open>cache\<close> the component state.
\<close>

definition getTranslation ::
  "string \<Rightarrow> string \<Rightarrow> ViewTranslationCache \<Rightarrow> string \<Rightarrow> string \<Rightarrow> string \<Rightarrow> string" where
  "getTranslation locale defaultLocale cache ct cid fallback =
     (if locale = defaultLocale then fallback
      else (let key = cacheKey ct cid in js_or (js_get cache key) fallback))"

text \<open>part_001, lines 270-274.\<close>

definition isItemTranslating ::
  "string \<Rightarrow> string \<Rightarrow> ViewTranslationCache \<Rightarrow> bool \<Rightarrow> string \<Rightarrow> string \<Rightarrow> bool" where
  "isItemTranslating locale defaultLocale cache isTranslating ct cid =
     (if locale = defaultLocale then False
      else (let key = cacheKey ct cid
            in isTranslating \<and> \<not> truthy (js_get cache key)))"

section \<open>Adapters and the world they act on\<close>

text \<open>
  The content sources of the CLI configuration; the engine only hands them to the
  adapter (the optional \<open>where\<close> filters are left out).
\<close>

record ContentSourceItem =
  sourceContentType :: string
  textColumn :: string

record ContentSource =
  table :: string
  idColumn :: string
  sourceItems :: "ContentSourceItem list"

text \<open>
  The \<open>DatabaseAdapter\<close> interface over a database state \<open>'db\<close>. A read returns rows
  or throws, and leaves the database as it is; a write returns the new database state,
  with the error when it throws.
  \<open>getAllTranslatableContent\<close> is optional. The locale of a read is a \<open>js_string\<close>:
  the batch engine passes \<open>targetLocales[0]\<close>, which is \<open>undefined\<close> for an empty list.
\<close>

record 'db DatabaseAdapter =
  getCachedTranslations :: "'db \<Rightarrow> TranslationItem list \<Rightarrow> js_string \<Rightarrow> error + CachedRow list"
  saveTranslations :: "'db \<Rightarrow> SaveRow list \<Rightarrow> error option \<times> 'db"
  getAllTranslatableContent :: "('db \<Rightarrow> ContentSource list \<Rightarrow> error + TranslationItem list) option"

text \<open>
  \<open>LLMProvider.translateBatch (items, sourceLocale, targetLocale)\<close>: strings, or a
  throw. The provider keeps no state: its answer depends on the arguments only.
\<close>

type_synonym LLMProvider = "TranslationItem list \<Rightarrow> string \<Rightarrow> string \<Rightarrow> error + string list"

text \<open>The calls made to the two adapters, in order, with their arguments.\<close>

datatype call =
    CallGetCached "TranslationItem list" js_string
  | CallSave "SaveRow list"
  | CallTranslateBatch "TranslationItem list" string string
  | CallGetAllContent "ContentSource list"

record 'db world =
  db :: 'db
  calls :: "call list"

definition logCall :: "call \<Rightarrow> ('db, 'z) world_scheme \<Rightarrow> ('db, 'z) world_scheme" where
  "logCall c w = w\<lparr>calls := calls w @ [c]\<rparr>"

text \<open>\<open>xs[i]\<close> on a JavaScript array.\<close>

definition js_nth :: "string list \<Rightarrow> nat \<Rightarrow> js_string" where
  "js_nth xs i = (if i < length xs then Some (xs ! i) else None)"

section \<open>The view translation coordinator (part_001)\<close>

text \<open>
  The state of one \<open>ViewTranslationProvider\<close>: the two \<open>useState\<close> cells, the
  browser's \<open>localStorage\<close> and the world. A \<open>localStorage\<close> entry that is absent,
  does not parse or lacks the fields takes the same path (lines 114-147), so the store
  maps a key to the parsed metadata.
\<close>

record 'db view_state = "'db world" +
  cache :: ViewTranslationCache
  isTranslating :: bool
  localStorage :: "string \<rightharpoonup> ViewTranslationMetadata"

record 'db AudarConfig =
  database :: "'db DatabaseAdapter"
  llm :: LLMProvider

definition metadataKey :: "string \<Rightarrow> string \<Rightarrow> string" where
  "metadataKey viewName locale = ''translation_metadata_'' @ viewName @ ''_'' @ locale"

text \<open>Line 119.\<close>

definition metadataMatches :: "ViewTranslationMetadata option \<Rightarrow> string \<Rightarrow> nat \<Rightarrow> bool" where
  "metadataMatches m h n =
     (case m of None \<Rightarrow> False | Some md \<Rightarrow> contentHash md = h \<and> itemCount md = n)"

text \<open>Lines 158-160: a \<open>Map\<close> built from the rows, a later row replacing an earlier one.\<close>

definition cachedMapOf :: "CachedRow list \<Rightarrow> ViewTranslationCache" where
  "cachedMapOf rows =
     fold (\<lambda>r m. m(cacheKey (content_type r) (content_id r) \<mapsto> translated_text r)) rows Map.empty"

text \<open>Lines 157 and 163-173: the cached texts and the items that need translation.\<close>

definition partitionItems ::
  "ViewTranslationCache \<Rightarrow> TranslationItem list \<Rightarrow> ViewTranslationCache \<times> TranslationItem list" where
  "partitionItems cachedMap items =
     fold (\<lambda>item (newCache, uncachedItems).
             let key = cacheKey (contentType item) (contentId item);
                 cached = js_get cachedMap key
             in if truthy cached then (newCache(key \<mapsto> cached), uncachedItems)
                else (newCache, uncachedItems @ [item]))
          items (Map.empty, [])"

text \<open>Lines 190-197.\<close>

definition viewTranslationsToSave ::
  "digest_fn \<Rightarrow> string \<Rightarrow> TranslationItem list \<Rightarrow> string list \<Rightarrow> SaveRow list" where
  "viewTranslationsToSave H locale uncachedItems translatedTexts =
     map (\<lambda>(idx, item).
            \<lparr>content_type = contentType item, content_id = contentId item,
             translated_text = js_nth translatedTexts idx,
             source_hash = viewSourceHash H (item_text item),
             row_locale = locale, original_text = item_text item\<rparr>)
         (enumerate 0 uncachedItems)"

text \<open>Lines 202-205.\<close>

definition addToCache ::
  "TranslationItem list \<Rightarrow> string list \<Rightarrow> ViewTranslationCache \<Rightarrow> ViewTranslationCache" where
  "addToCache uncachedItems translatedTexts newCache =
     fold (\<lambda>(idx, item) c.
             c(cacheKey (contentType item) (contentId item) \<mapsto> js_nth translatedTexts idx))
          (enumerate 0 uncachedItems) newCache"

text \<open>
  Lines 212-221: the new cache is set and the metadata written; \<open>now\<close> is the clock's
  \<open>new Date().toISOString()\<close>.
\<close>

definition settle ::
  "string \<Rightarrow> string \<Rightarrow> string \<Rightarrow> string \<Rightarrow> nat \<Rightarrow> ViewTranslationCache
   \<Rightarrow> 'db view_state \<Rightarrow> 'db view_state" where
  "settle now viewName locale h n newCache st =
     st\<lparr>cache := newCache,
        localStorage := (localStorage st)(metadataKey viewName locale \<mapsto>
          \<lparr>contentHash = h, lastTranslated = now, metaLocale = locale, itemCount = n\<rparr>)\<rparr>"

text \<open>
  Lines 149-229, step 3 of \<open>translateView\<close> run to its end: any throw inside the
  \<open>try\<close> is caught and logged, and \<open>finally\<close> clears the in-flight flag.
\<close>

definition translateFresh ::
  "digest_fn \<Rightarrow> 'db AudarConfig \<Rightarrow> string \<Rightarrow> string \<Rightarrow> string \<Rightarrow> string
   \<Rightarrow> TranslationItem list \<Rightarrow> 'db view_state \<Rightarrow> 'db view_state" where
  "translateFresh H config now viewName locale defaultLocale items st =
     (let st1 = logCall (CallGetCached items (Some locale)) (st\<lparr>isTranslating := True\<rparr>)
      in case getCachedTranslations (database config) (db st1) items (Some locale) of
           Inl e \<Rightarrow> st1\<lparr>isTranslating := False\<rparr>
         | Inr cachedResults \<Rightarrow>
             (case partitionItems (cachedMapOf cachedResults) items of
                (newCache, uncachedItems) \<Rightarrow>
                  if length uncachedItems > 0 then
                    (let st2 = logCall (CallTranslateBatch uncachedItems defaultLocale locale) st1
                     in case llm config uncachedItems defaultLocale locale of
                          Inl e \<Rightarrow> st2\<lparr>isTranslating := False\<rparr>
                        | Inr translatedTexts \<Rightarrow>
                            (let translationsToSave =
                                   viewTranslationsToSave H locale uncachedItems translatedTexts;
                                 st3 = logCall (CallSave translationsToSave) st2
                             in case saveTranslations (database config) (db st3) translationsToSave of
                                  (Some e, db') \<Rightarrow> st3\<lparr>db := db', isTranslating := False\<rparr>
                                | (None, db') \<Rightarrow>
                                    (settle now viewName locale (viewContentHash H items) (length items)
                                       (addToCache uncachedItems translatedTexts newCache)
                                       (st3\<lparr>db := db'\<rparr>))\<lparr>isTranslating := False\<rparr>))
                  else (settle now viewName locale (viewContentHash H items) (length items)
                          newCache st1)\<lparr>isTranslating := False\<rparr>))"

text \<open>Lines 239-243 of \<open>loadFromDatabaseCache\<close>.\<close>

definition loadedCache :: "CachedRow list \<Rightarrow> ViewTranslationCache" where
  "loadedCache cachedResults =
     fold (\<lambda>r c. c(cacheKey (content_type r) (content_id r) \<mapsto> translated_text r))
          cachedResults Map.empty"

text \<open>
  \<open>translateView\<close> (lines 102-230) with \<open>loadFromDatabaseCache\<close> (lines 233-259), run
  to the end. When the metadata matches, the cache is loaded from the database; a read
  that throws there calls \<open>translateView\<close> again (line 257), which may go on forever:
  \<open>None\<close> is a cycle that never settles.
\<close>

partial_function (option) translateView ::
  "digest_fn \<Rightarrow> 'db AudarConfig \<Rightarrow> string \<Rightarrow> string \<Rightarrow> string \<Rightarrow> string
   \<Rightarrow> TranslationItem list \<Rightarrow> 'db view_state \<Rightarrow> 'db view_state option" where
  "translateView H config now viewName locale defaultLocale items st =
     (if metadataMatches (localStorage st (metadataKey viewName locale))
           (viewContentHash H items) (length items)
      then (let st1 = logCall (CallGetCached items (Some locale)) st
            in case getCachedTranslations (database config) (db st1) items (Some locale) of
                 Inr cachedResults \<Rightarrow> Some (st1\<lparr>cache := loadedCache cachedResults\<rparr>)
               | Inl e \<Rightarrow> translateView H config now viewName locale defaultLocale items st1)
      else Some (translateFresh H config now viewName locale defaultLocale items st))"

text \<open>
  The effect of lines 94-262, run to the end: one sync cycle for the rendered
  \<open>locale\<close> and \<open>items\<close>.
\<close>

definition syncCycle ::
  "digest_fn \<Rightarrow> 'db AudarConfig \<Rightarrow> string \<Rightarrow> string \<Rightarrow> string \<Rightarrow> string
   \<Rightarrow> TranslationItem list \<Rightarrow> 'db view_state \<Rightarrow> 'db view_state option" where
  "syncCycle H config now viewName locale defaultLocale items st =
     (if locale = defaultLocale \<or> length items = 0
      then Some (st\<lparr>cache := Map.empty, isTranslating := False\<rparr>)
      else translateView H config now viewName locale defaultLocale items st)"

text \<open>
  The same effect up to its first \<open>await\<close>, where the component renders again while
  the database read is in flight: the skip of lines 96-100, the matched metadata
  (no state is set before line 237 awaits) or line 150.
\<close>

definition syncCycleStart ::
  "digest_fn \<Rightarrow> string \<Rightarrow> string \<Rightarrow> string \<Rightarrow> TranslationItem list
   \<Rightarrow> 'db view_state \<Rightarrow> 'db view_state" where
  "syncCycleStart H viewName locale defaultLocale items st =
     (if locale = defaultLocale \<or> length items = 0
      then st\<lparr>cache := Map.empty, isTranslating := False\<rparr>
      else if metadataMatches (localStorage st (metadataKey viewName locale))
                (viewContentHash H items) (length items)
      then logCall (CallGetCached items (Some locale)) st
      else logCall (CallGetCached items (Some locale)) (st\<lparr>isTranslating := True\<rparr>))"

section \<open>The batch gap-filling engine (cli/translate.ts)\<close>



text \<open>Lines 109-113 and 199-203: the item fields of a discovered content or a gap.\<close>

definition toItem :: "'a TranslationItem_scheme \<Rightarrow> TranslationItem" where
  "toItem c = \<lparr>contentType = contentType c, contentId = contentId c, item_text = item_text c\<rparr>"




text \<open>Lines 134-140: the row found for an item, and whether the locale is missing.\<close>

definition isMissing :: "CachedRow list \<Rightarrow> DiscoveredContent \<Rightarrow> bool" where
  "isMissing cachedTranslations item =
     (case find (\<lambda>c. content_type c = contentType item \<and> content_id c = contentId item)
                cachedTranslations of
        None \<Rightarrow> True
      | Some cached \<Rightarrow> source_hash cached \<noteq> sourceHash item)"



text \<open>Lines 214-221.\<close>

definition cliTranslationsToSave :: "string \<Rightarrow> TranslationGap list \<Rightarrow> string list \<Rightarrow> SaveRow list" where
  "cliTranslationsToSave locale batch translations =
     map (\<lambda>(idx, item).
            \<lparr>content_type = contentType item, content_id = contentId item,
             translated_text = js_nth translations idx,
             source_hash = sourceHash item,
             row_locale = locale, original_text = item_text item\<rparr>)
         (enumerate 0 batch)"

text \<open>
  The loop of lines 192-231 from index \<open>i\<close> with the running total. A throw of the
  provider or of the store is logged and thrown again (lines 227-230). With a batch
  size of 0 the index never advances: \<open>None\<close> is a loop that never ends.
\<close>

partial_function (option) translateBatchLoop ::
  "TranslationGap list \<Rightarrow> string \<Rightarrow> string \<Rightarrow> LLMProvider \<Rightarrow> 'db DatabaseAdapter \<Rightarrow> nat
   \<Rightarrow> nat \<Rightarrow> nat \<Rightarrow> 'db world \<Rightarrow> ((error + nat) \<times> 'db world) option" where
  "translateBatchLoop itemsForLocale locale srcLocale provider adapter bsize i totalTranslated w =
     (if i < length itemsForLocale then
        (let batch = take bsize (drop i itemsForLocale);
             translationItems = map toItem batch;
             w1 = logCall (CallTranslateBatch translationItems srcLocale locale) w
         in case provider translationItems srcLocale locale of
              Inl e \<Rightarrow> Some (Inl e, w1)
            | Inr translations \<Rightarrow>
                (let translationsToSave = cliTranslationsToSave locale batch translations;
                     w2 = logCall (CallSave translationsToSave) w1
                 in case saveTranslations adapter (db w2) translationsToSave of
                      (Some e, db') \<Rightarrow> Some (Inl e, w2\<lparr>db := db'\<rparr>)
                    | (None, db') \<Rightarrow>
                        translateBatchLoop itemsForLocale locale srcLocale provider adapter bsize
                          (i + bsize) (totalTranslated + length translations) (w2\<lparr>db := db'\<rparr>)))
      else Some (Inr totalTranslated, w))"

text \<open>Lines 173-234.\<close>

definition translateBatch ::
  "TranslationGap list \<Rightarrow> string \<Rightarrow> string \<Rightarrow> LLMProvider \<Rightarrow> 'db DatabaseAdapter \<Rightarrow> nat
   \<Rightarrow> 'db world \<Rightarrow> ((error + nat) \<times> 'db world) option" where
  "translateBatch gaps locale srcLocale provider adapter bsize w =
     (let itemsForLocale = filter (\<lambda>g. locale \<in> set (missingLocales g)) gaps
      in if length itemsForLocale = 0 then Some (Inr 0, w)
         else translateBatchLoop itemsForLocale locale srcLocale provider adapter bsize 0 0 w)"

text \<open>The loop of lines 289-299 over the target locales; a throw ends it.\<close>

fun translateLocales ::
  "TranslationGap list \<Rightarrow> string \<Rightarrow> LLMProvider \<Rightarrow> 'db DatabaseAdapter \<Rightarrow> nat
   \<Rightarrow> string list \<Rightarrow> nat \<Rightarrow> 'db world \<Rightarrow> ((error + nat) \<times> 'db world) option" where
  "translateLocales gaps srcLocale provider adapter bsize [] totalTranslated w =
     Some (Inr totalTranslated, w)"
| "translateLocales gaps srcLocale provider adapter bsize (locale # rest) totalTranslated w =
     (case translateBatch gaps locale srcLocale provider adapter bsize w of
        None \<Rightarrow> None
      | Some (Inl e, w') \<Rightarrow> Some (Inl e, w')
      | Some (Inr translated, w') \<Rightarrow>
          translateLocales gaps srcLocale provider adapter bsize rest
            (totalTranslated + translated) w')"




section \<open>A reference store\<close>

text \<open>
  Modelled from the spec: the adapters are supplied by the application and are not part
  of the engine. This one is the store contract of the specification (section 4.2) over
  a table of rows: a read returns the rows of the given items at exactly the given
  locale, a save replaces by the primary key (content type, content id, locale).
\<close>

definition rowKey :: "SaveRow \<Rightarrow> string \<times> string \<times> string" where
  "rowKey r = (content_type r, content_id r, row_locale r)"

definition tableGet :: "SaveRow list \<Rightarrow> TranslationItem list \<Rightarrow> js_string \<Rightarrow> error + CachedRow list" where
  "tableGet t items targetLocale =
     Inr (map (\<lambda>r. \<lparr>content_type = content_type r, content_id = content_id r,
                     translated_text = translated_text r, source_hash = source_hash r\<rparr>)
            (filter (\<lambda>r. Some (row_locale r) = targetLocale \<and>
                          list_ex (\<lambda>i. contentType i = content_type r \<and> contentId i = content_id r) items)
                    t))"

definition upsert :: "SaveRow \<Rightarrow> SaveRow list \<Rightarrow> SaveRow list" where
  "upsert r t = filter (\<lambda>x. rowKey x \<noteq> rowKey r) t @ [r]"

definition tableSave :: "SaveRow list \<Rightarrow> SaveRow list \<Rightarrow> error option \<times> SaveRow list" where
  "tableSave t rows = (None, fold upsert rows t)"

definition tableAdapter :: "TranslationItem list option \<Rightarrow> SaveRow list DatabaseAdapter" where
  "tableAdapter content =
     \<lparr>getCachedTranslations = tableGet, saveTranslations = tableSave,
      getAllTranslatableContent = map_option (\<lambda>c t sources. Inr c) content\<rparr>"

definition hasKey :: "SaveRow list \<Rightarrow> string \<times> string \<times> string \<Rightarrow> bool" where
  "hasKey t k = list_ex (\<lambda>r. rowKey r = k) t"

section \<open>Notions used to state the properties\<close>


fun isSaveCall :: "call \<Rightarrow> bool" where
  "isSaveCall (CallSave rows) = True"
| "isSaveCall (CallTranslateBatch items src tgt) = False"
| "isSaveCall (CallGetCached items l) = False"
| "isSaveCall (CallGetAllContent sources) = False"

text \<open>
  The \<open>j\<close>-th slice of the batch loop, counted from 0: \<open>slice(i, i + batchSize)\<close>
  at \<open>i = j * batchSize\<close>.
\<close>

definition batchAt :: "'a list \<Rightarrow> nat \<Rightarrow> nat \<Rightarrow> 'a list" where
  "batchAt xs bsize j = take bsize (drop (j * bsize) xs)"

text \<open>
  An item whose line holds no \<open>|\<close>, and an item whose content type and content id
  moreover hold no \<open>:\<close>.
\<close>

definition barFree :: "TranslationItem \<Rightarrow> bool" where
  "barFree item = (CHR ''|'' \<notin> set (itemLine item))"

definition sepFree :: "TranslationItem \<Rightarrow> bool" where
  "sepFree item = (CHR '':'' \<notin> set (contentType item) \<and> CHR '':'' \<notin> set (contentId item)
                   \<and> CHR ''|'' \<notin> set (itemLine item))"

section \<open>Example data\<close>

text \<open>A record stored for the item \<open>greeting\<close> below when its text was another one.\<close>

abbreviation staleRow :: "string \<Rightarrow> SaveRow" where
  "staleRow h \<equiv> \<lparr>content_type = ''greeting'', content_id = ''1'', translated_text = Some ''Buenas'',
                  source_hash = h, row_locale = ''es'', original_text = ''Good day''\<rparr>"

abbreviation freshRow :: "digest_fn \<Rightarrow> SaveRow" where
  "freshRow H \<equiv> \<lparr>content_type = ''greeting'', content_id = ''1'', translated_text = Some ''Hola'',
                  source_hash = cliSourceHash H ''Hello'', row_locale = ''es'',
                  original_text = ''Hello''\<rparr>"


abbreviation threeGaps :: "TranslationGap list" where
  "threeGaps \<equiv>
     [\<lparr>contentType = ''greeting'', contentId = ''1'', item_text = ''Hello'', sourceHash = ''h1'',
       missingLocales = [''es'']\<rparr>,
      \<lparr>contentType = ''farewell'', contentId = ''2'', item_text = ''Bye'', sourceHash = ''h2'',
       missingLocales = [''es'']\<rparr>,
      \<lparr>contentType = ''thanks'', contentId = ''3'', item_text = ''Thanks'', sourceHash = ''h3'',
       missingLocales = [''es'']\<rparr>]"

abbreviation failingProvider :: LLMProvider where
  "failingProvider \<equiv> (\<lambda>items src tgt.
      if map contentId items = [''2''] then Inl (Error ''provider down'')
      else Inr (map (\<lambda>i. tgt @ '':'' @ item_text i) items))"

abbreviation twoGaps :: "TranslationGap list" where
  "twoGaps \<equiv>
     [\<lparr>contentType = ''greeting'', contentId = ''1'', item_text = ''Hello'', sourceHash = ''h1'',
       missingLocales = [''es'']\<rparr>,
      \<lparr>contentType = ''farewell'', contentId = ''2'', item_text = ''Bye'', sourceHash = ''h2'',
       missingLocales = [''es'']\<rparr>]"

abbreviation twoRows :: "SaveRow list" where
  "twoRows \<equiv>
     [\<lparr>content_type = ''greeting'', content_id = ''1'', translated_text = Some ''uno'',
       source_hash = ''h1'', row_locale = ''es'', original_text = ''Hello''\<rparr>,
      \<lparr>content_type = ''farewell'', content_id = ''2'', translated_text = None,
       source_hash = ''h2'', row_locale = ''es'', original_text = ''Bye''\<rparr>]"

text \<open>A provider that answers every batch with one string.\<close>

abbreviation oneAnswerProvider :: LLMProvider where
  "oneAnswerProvider \<equiv> (\<lambda>items src tgt. Inr [''uno''])"

text \<open>A provider that answers every batch with two strings.\<close>

abbreviation twoAnswerProvider :: LLMProvider where
  "twoAnswerProvider \<equiv> (\<lambda>items src tgt. Inr [''uno'', ''dos''])"

abbreviation unoRows :: "SaveRow list" where
  "unoRows \<equiv>
     [\<lparr>content_type = ''greeting'', content_id = ''1'', translated_text = Some ''uno'',
       source_hash = ''h1'', row_locale = ''es'', original_text = ''Hello''\<rparr>,
      \<lparr>content_type = ''farewell'', content_id = ''2'', translated_text = Some ''uno'',
       source_hash = ''h2'', row_locale = ''es'', original_text = ''Bye''\<rparr>]"

abbreviation farewellRow :: "digest_fn \<Rightarrow> SaveRow" where
  "farewellRow H \<equiv> \<lparr>content_type = ''farewell'', content_id = ''2'', translated_text = Some ''uno'',
                     source_hash = H ''Bye'', row_locale = ''es'', original_text = ''Bye''\<rparr>"

abbreviation greeting :: TranslationItem where
  "greeting \<equiv> \<lparr>contentType = ''greeting'', contentId = ''1'', item_text = ''Hello''\<rparr>"

abbreviation farewell :: TranslationItem where
  "farewell \<equiv> \<lparr>contentType = ''farewell'', contentId = ''2'', item_text = ''Bye''\<rparr>"

text \<open>A provider that answers every item with the target locale and the source text.\<close>

abbreviation tagProvider :: LLMProvider where
  "tagProvider \<equiv> (\<lambda>items src tgt. Inr (map (\<lambda>i. tgt @ '':'' @ item_text i) items))"

abbreviation emptyView :: "SaveRow list \<Rightarrow> SaveRow list view_state" where
  "emptyView t \<equiv> \<lparr>db = t, calls = [], cache = Map.empty, isTranslating = False,
                    localStorage = Map.empty\<rparr>"

section \<open>Properties of the fingerprint and of the query surface\<close>

lemma sort_cong_mset: "mset xs = mset ys \<Longrightarrow> sort xs = sort ys"
  by (metis properties_for_sort sorted_sort mset_sort)

text \<open>
  C5. The view fingerprint does not depend on the order of the items: two lists with
  the same items (as multisets) have the same fingerprint.
\<close>

theorem fingerprint_order_independent:
  "mset items = mset items' \<Longrightarrow> viewContentHash H items = viewContentHash H items'"
proof -
  assume "mset items = mset items'"
  then have "mset (map itemLine items) = mset (map itemLine items')"
    by (metis mset_map)
  then have "sort (map itemLine items) = sort (map itemLine items')"
    by (rule sort_cong_mset)
  then show ?thesis
    by (simp add: viewContentHash_def contentString_def)
qed

theorem fingerprint_order_independent_witness:
  "\<forall>H. mset [greeting, farewell] = mset [farewell, greeting]
       \<and> viewContentHash H [greeting, farewell] = viewContentHash H [farewell, greeting]"
proof
  fix H
  have m: "mset [greeting, farewell] = mset [farewell, greeting]"
    by simp
  show "mset [greeting, farewell] = mset [farewell, greeting]
       \<and> viewContentHash H [greeting, farewell] = viewContentHash H [farewell, greeting]"
    using m fingerprint_order_independent [OF m, of H] by simp
qed

text \<open>
  C3. The digest stored as \<open>source_hash\<close> by the view coordinator is the whole hex
  digest of the text, the one the batch engine computes is its first 16 characters:
  the two are equal only for a digest of at most 16 characters, and a SHA-256 hex
  digest has 64.
\<close>

theorem source_hash_truncation_differs:
  "cliSourceHash H s = take 16 (viewSourceHash H s)
   \<and> (viewSourceHash H s = cliSourceHash H s) = (length (H s) \<le> 16)"
proof -
  have "(H s = take 16 (H s)) = (length (H s) \<le> 16)"
  proof
    assume "H s = take 16 (H s)"
    then have "length (H s) = length (take 16 (H s))" by simp
    then show "length (H s) \<le> 16" by simp
  next
    assume "length (H s) \<le> 16"
    then show "H s = take 16 (H s)" by simp
  qed
  then show ?thesis
    by (simp add: cliSourceHash_def viewSourceHash_def)
qed

text \<open>
  C10. Under a locale other than the default one, a cache that maps the key of an item
  to the empty string makes \<open>getTranslation\<close> return the fallback, and both queries
  answer as they do for a cache without that key.
\<close>

theorem empty_translation_reads_as_none:
  "locale \<noteq> defaultLocale \<Longrightarrow> c (cacheKey ct cid) = Some (Some []) \<Longrightarrow>
     getTranslation locale defaultLocale c ct cid fallback = fallback
     \<and> getTranslation locale defaultLocale (c(cacheKey ct cid := None)) ct cid fallback = fallback
     \<and> isItemTranslating locale defaultLocale c b ct cid
        = isItemTranslating locale defaultLocale (c(cacheKey ct cid := None)) b ct cid"
  by (simp add: getTranslation_def isItemTranslating_def js_or_def js_get_def truthy_def)

theorem empty_translation_reads_as_none_witness:
  "''es'' \<noteq> ''en''
   \<and> [''greeting:1'' \<mapsto> Some []] (cacheKey ''greeting'' ''1'') = Some (Some [])
   \<and> getTranslation ''es'' ''en'' [''greeting:1'' \<mapsto> Some []] ''greeting'' ''1'' ''Hello'' = ''Hello''
   \<and> isItemTranslating ''es'' ''en'' [''greeting:1'' \<mapsto> Some []] True ''greeting'' ''1''"
  using empty_translation_reads_as_none [of "''es''" "''en''" "[''greeting:1'' \<mapsto> Some []]"
      "''greeting''" "''1''" "''Hello''" True]
  by (simp add: cacheKey_def isItemTranslating_def js_get_def truthy_def)

section \<open>Properties of the view coordinator\<close>

text \<open>
  C7. When the active locale is the default locale, or the item list is empty, a sync
  cycle settles at once with an empty cache and a cleared in-flight flag, calls neither
  the store nor the provider, and \<open>getTranslation\<close> then returns the fallback for every
  item; under the default locale it returns the fallback whatever the cache holds.
\<close>

theorem default_locale_bypass:
  "locale = defaultLocale \<or> items = [] \<Longrightarrow>
     (\<exists>st'. syncCycle H config now viewName locale defaultLocale items st = Some st'
        \<and> calls st' = calls st \<and> db st' = db st
        \<and> cache st' = Map.empty \<and> \<not> isTranslating st'
        \<and> getTranslation locale defaultLocale (cache st') ct cid fallback = fallback)
     \<and> (locale = defaultLocale \<longrightarrow> getTranslation locale defaultLocale c ct cid fallback = fallback)"
  by (auto simp: syncCycle_def getTranslation_def js_or_def js_get_def)

theorem default_locale_bypass_witness:
  "\<forall>H. (''en'' = ''en'' \<or> [greeting] = [])
     \<and> (\<exists>st'. syncCycle H \<lparr>database = tableAdapter None, llm = tagProvider\<rparr> ''t1'' ''feed''
                 ''en'' ''en'' [greeting]
                 ((emptyView [])\<lparr>cache := [''greeting:1'' \<mapsto> Some ''Hola''], isTranslating := True\<rparr>)
               = Some st'
             \<and> calls st' = [] \<and> cache st' = Map.empty \<and> \<not> isTranslating st')
     \<and> getTranslation ''en'' ''en'' [''greeting:1'' \<mapsto> Some ''Hola''] ''greeting'' ''1'' ''Hello''
         = ''Hello''
     \<and> (\<exists>st'. syncCycle H \<lparr>database = tableAdapter None, llm = tagProvider\<rparr> ''t1'' ''feed''
                 ''es'' ''en'' []
                 ((emptyView [])\<lparr>cache := [''greeting:1'' \<mapsto> Some ''Hola''], isTranslating := True\<rparr>)
               = Some st'
             \<and> calls st' = [] \<and> cache st' = Map.empty
             \<and> getTranslation ''es'' ''en'' (cache st') ''greeting'' ''1'' ''Hello'' = ''Hello'')"
proof
  fix H
  let ?cfg = "\<lparr>database = tableAdapter None, llm = tagProvider\<rparr>"
  let ?st = "(emptyView [])\<lparr>cache := [''greeting:1'' \<mapsto> Some ''Hola''], isTranslating := True\<rparr>"
  have a: "''en'' = ''en'' \<or> [greeting] = []"
    by simp
  have b: "''es'' = ''en'' \<or> ([] :: TranslationItem list) = []"
    by simp
  note t1 = default_locale_bypass [OF a, of H ?cfg "''t1''" "''feed''" ?st "''greeting''" "''1''"
      "''Hello''" "[''greeting:1'' \<mapsto> Some ''Hola'']"]
  note t2 = default_locale_bypass [OF b, of H ?cfg "''t1''" "''feed''" ?st "''greeting''" "''1''"
      "''Hello''" "[''greeting:1'' \<mapsto> Some ''Hola'']"]
  show "(''en'' = ''en'' \<or> [greeting] = [])
     \<and> (\<exists>st'. syncCycle H ?cfg ''t1'' ''feed'' ''en'' ''en'' [greeting] ?st = Some st'
             \<and> calls st' = [] \<and> cache st' = Map.empty \<and> \<not> isTranslating st')
     \<and> getTranslation ''en'' ''en'' [''greeting:1'' \<mapsto> Some ''Hola''] ''greeting'' ''1'' ''Hello''
         = ''Hello''
     \<and> (\<exists>st'. syncCycle H ?cfg ''t1'' ''feed'' ''es'' ''en'' [] ?st = Some st'
             \<and> calls st' = [] \<and> cache st' = Map.empty
             \<and> getTranslation ''es'' ''en'' (cache st') ''greeting'' ''1'' ''Hello'' = ''Hello'')"
    using t1 t2 by auto
qed

lemma fold_ignores_source_hash:
  "fold (\<lambda>r m. m(cacheKey (content_type r) (content_id r) \<mapsto> translated_text r))
        (map (\<lambda>r. r\<lparr>source_hash := g r\<rparr>) rows) m0
   = fold (\<lambda>r m. m(cacheKey (content_type r) (content_id r) \<mapsto> translated_text r)) rows m0"
  by (induction rows arbitrary: m0) simp_all

text \<open>
  C1. The view coordinator never reads \<open>source_hash\<close>. With a store that holds, for
  the item's key and locale, a record made from another text under any hash \<open>h\<close>, a
  sync cycle takes the record as a hit: it only reads the store, calls no provider and
  serves the old translation. Rewriting the hashes of the rows read changes neither the
  map of cached texts nor the loaded cache. The batch engine, on the same row, reports
  the item missing exactly when \<open>h\<close> differs from the hash of the current text.
\<close>

theorem coordinator_serves_stale_record:
  "(\<exists>st'. syncCycle H \<lparr>database = tableAdapter None, llm = tagProvider\<rparr> now ''feed'' ''es'' ''en''
             [greeting] (emptyView [staleRow h]) = Some st'
      \<and> calls st' = [CallGetCached [greeting] (Some ''es'')]
      \<and> db st' = [staleRow h]
      \<and> getTranslation ''es'' ''en'' (cache st') ''greeting'' ''1'' ''Hello'' = ''Buenas'')
   \<and> cachedMapOf (map (\<lambda>r. r\<lparr>source_hash := g r\<rparr>) rows) = cachedMapOf rows
   \<and> loadedCache (map (\<lambda>r. r\<lparr>source_hash := g r\<rparr>) rows) = loadedCache rows
   \<and> isMissing [\<lparr>content_type = ''greeting'', content_id = ''1'', translated_text = Some ''Buenas'',
                  source_hash = h\<rparr>]
        \<lparr>contentType = ''greeting'', contentId = ''1'', item_text = ''Hello'',
         sourceHash = cliSourceHash H ''Hello''\<rparr>
      = (h \<noteq> cliSourceHash H ''Hello'')"
proof -
  have a: "\<exists>st'. syncCycle H \<lparr>database = tableAdapter None, llm = tagProvider\<rparr> now ''feed'' ''es'' ''en''
             [greeting] (emptyView [staleRow h]) = Some st'
      \<and> calls st' = [CallGetCached [greeting] (Some ''es'')]
      \<and> db st' = [staleRow h]
      \<and> getTranslation ''es'' ''en'' (cache st') ''greeting'' ''1'' ''Hello'' = ''Buenas''"
    apply (subst syncCycle_def)
    apply (subst translateView.simps)
    apply (simp add: metadataMatches_def translateFresh_def logCall_def tableAdapter_def tableGet_def
      cachedMapOf_def partitionItems_def cacheKey_def js_get_def truthy_def settle_def
      getTranslation_def js_or_def)
    done
  have b: "cachedMapOf (map (\<lambda>r. r\<lparr>source_hash := g r\<rparr>) rows) = cachedMapOf rows"
    by (simp add: cachedMapOf_def fold_ignores_source_hash)
  have c: "loadedCache (map (\<lambda>r. r\<lparr>source_hash := g r\<rparr>) rows) = loadedCache rows"
    by (simp add: loadedCache_def fold_ignores_source_hash)
  have d: "isMissing [\<lparr>content_type = ''greeting'', content_id = ''1'', translated_text = Some ''Buenas'',
                  source_hash = h\<rparr>]
        \<lparr>contentType = ''greeting'', contentId = ''1'', item_text = ''Hello'',
         sourceHash = cliSourceHash H ''Hello''\<rparr>
      = (h \<noteq> cliSourceHash H ''Hello'')"
    by (simp add: isMissing_def)
  from a b c d show ?thesis by blast
qed

lemma syncCycleStart_keeps_cache:
  "locale \<noteq> defaultLocale \<Longrightarrow> items \<noteq> [] \<Longrightarrow>
     cache (syncCycleStart H viewName locale defaultLocale items st) = cache st"
  by (simp add: syncCycleStart_def logCall_def)

text \<open>
  C2. A cycle under locale \<open>ru\<close> leaves the translation \<open>ru:Hello\<close> in the cache. When
  the locale then becomes \<open>ja\<close>, the render that precedes the effect, and the state
  after the effect has started its cycle for \<open>ja\<close> (in flight, up to its first
  \<open>await\<close>), both still answer \<open>getTranslation\<close> with the text produced for
  \<open>ru\<close>: the cache is not cleared before the new cycle starts.
\<close>

theorem locale_switch_shows_previous_locale:
  "\<exists>st1. syncCycle H \<lparr>database = tableAdapter None, llm = tagProvider\<rparr> now ''feed'' ''ru'' ''en''
             [greeting] (emptyView []) = Some st1
      \<and> getTranslation ''ru'' ''en'' (cache st1) ''greeting'' ''1'' ''Hello'' = ''ru:Hello''
      \<and> \<not> isTranslating st1
      \<and> getTranslation ''ja'' ''en'' (cache st1) ''greeting'' ''1'' ''Hello'' = ''ru:Hello''
      \<and> getTranslation ''ja'' ''en''
           (cache (syncCycleStart H ''feed'' ''ja'' ''en'' [greeting] st1))
           ''greeting'' ''1'' ''Hello'' = ''ru:Hello''
      \<and> isTranslating (syncCycleStart H ''feed'' ''ja'' ''en'' [greeting] st1)"
  apply (subst syncCycle_def)
  apply (subst translateView.simps)
  apply (simp add: metadataMatches_def translateFresh_def logCall_def tableAdapter_def tableGet_def
      tableSave_def upsert_def
      cachedMapOf_def partitionItems_def cacheKey_def js_get_def truthy_def settle_def
      getTranslation_def js_or_def viewTranslationsToSave_def addToCache_def js_nth_def
      syncCycleStart_def metadataKey_def Let_def)
  done

section \<open>Properties of the batch engine\<close>





lemma rowKey_cliTranslationsToSave:
  "map rowKey (cliTranslationsToSave locale batch ts)
   = map (\<lambda>g. (contentType g, contentId g, locale)) batch"
proof -
  have "map rowKey (cliTranslationsToSave locale batch ts)
        = map ((\<lambda>g. (contentType g, contentId g, locale)) \<circ> snd) (enumerate 0 batch)"
    by (simp add: cliTranslationsToSave_def rowKey_def split_def comp_def)
  also have "\<dots> = map (\<lambda>g. (contentType g, contentId g, locale)) (map snd (enumerate 0 batch))"
    by (simp only: map_map)
  finally show ?thesis by simp
qed

lemma saved_keys:
  assumes "g \<in> set batch"
  shows "\<exists>r \<in> set (cliTranslationsToSave locale batch ts). rowKey r = (contentType g, contentId g, locale)"
proof -
  from assms have "(contentType g, contentId g, locale)
      \<in> set (map (\<lambda>g. (contentType g, contentId g, locale)) batch)"
    by auto
  then have "(contentType g, contentId g, locale) \<in> set (map rowKey (cliTranslationsToSave locale batch ts))"
    by (simp only: rowKey_cliTranslationsToSave)
  then show ?thesis by auto
qed

lemma translateBatchLoop_abort:
  assumes size: "0 < bsize"
    and store_ok: "\<forall>d rows. fst (saveTranslations adapter d rows) = None"
    and contract: "\<forall>d rows d'. saveTranslations adapter d rows = (None, d') \<longrightarrow>
                     (\<forall>r \<in> set rows. present d' (rowKey r)) \<and> (\<forall>key. present d key \<longrightarrow> present d' key)"
  shows "i + k * bsize < length xs \<Longrightarrow>
     (\<forall>j<k. \<exists>ts. provider (map toItem (take bsize (drop (i + j * bsize) xs))) src locale = Inr ts) \<Longrightarrow>
     provider (map toItem (take bsize (drop (i + k * bsize) xs))) src locale = Inl e \<Longrightarrow>
     \<exists>w'. translateBatchLoop xs locale src provider adapter bsize i tot w = Some (Inl e, w')
        \<and> (\<forall>j<k. \<forall>g \<in> set (take bsize (drop (i + j * bsize) xs)).
               present (db w') (contentType g, contentId g, locale))
        \<and> (\<forall>key. present (db w) key \<longrightarrow> present (db w') key)
        \<and> length (filter isSaveCall (calls w')) = length (filter isSaveCall (calls w)) + k
        \<and> last (calls w') = CallTranslateBatch (map toItem (take bsize (drop (i + k * bsize) xs))) src locale"
proof (induction k arbitrary: i tot w)
  case 0
  then have "i < length xs" by simp
  with 0 show ?case
    by (subst translateBatchLoop.simps) (simp add: logCall_def Let_def)
next
  case (Suc k)
  let ?batch = "take bsize (drop i xs)"
  from Suc.prems(1) have i: "i < length xs" by simp
  from Suc.prems(2) obtain ts where ts: "provider (map toItem ?batch) src locale = Inr ts"
    by force
  let ?rows = "cliTranslationsToSave locale ?batch ts"
  let ?w1 = "logCall (CallTranslateBatch (map toItem ?batch) src locale) w"
  let ?w2 = "logCall (CallSave ?rows) ?w1"
  obtain d' where sv: "saveTranslations adapter (db ?w2) ?rows = (None, d')"
    using store_ok by (metis prod.collapse)
  let ?w3 = "?w2\<lparr>db := d'\<rparr>"
  have step: "translateBatchLoop xs locale src provider adapter bsize i tot w
      = translateBatchLoop xs locale src provider adapter bsize (i + bsize) (tot + length ts) ?w3"
    using i ts sv by (subst translateBatchLoop.simps) (simp add: Let_def)
  have p1: "(i + bsize) + k * bsize < length xs"
    using Suc.prems(1) by (simp add: algebra_simps)
  have p2: "\<forall>j<k. \<exists>ts. provider (map toItem (take bsize (drop ((i + bsize) + j * bsize) xs))) src locale = Inr ts"
  proof (intro allI impI)
    fix j assume "j < k"
    then have "Suc j < Suc k" by simp
    with Suc.prems(2) have "\<exists>ts. provider (map toItem (take bsize (drop (i + Suc j * bsize) xs))) src locale = Inr ts"
      by blast
    then show "\<exists>ts. provider (map toItem (take bsize (drop ((i + bsize) + j * bsize) xs))) src locale = Inr ts"
      by (simp add: algebra_simps)
  qed
  have p3: "provider (map toItem (take bsize (drop ((i + bsize) + k * bsize) xs))) src locale = Inl e"
    using Suc.prems(3) by (simp add: algebra_simps)
  from Suc.IH [OF p1 p2 p3, of "tot + length ts" ?w3]
  obtain w' where res: "translateBatchLoop xs locale src provider adapter bsize (i + bsize) (tot + length ts) ?w3
        = Some (Inl e, w')"
    and pres: "\<forall>j<k. \<forall>g \<in> set (take bsize (drop ((i + bsize) + j * bsize) xs)).
               present (db w') (contentType g, contentId g, locale)"
    and keep: "\<forall>key. present (db ?w3) key \<longrightarrow> present (db w') key"
    and cnt: "length (filter isSaveCall (calls w')) = length (filter isSaveCall (calls ?w3)) + k"
    and lst: "last (calls w') = CallTranslateBatch (map toItem (take bsize (drop ((i + bsize) + k * bsize) xs))) src locale"
    by blast
  from contract sv have c1: "\<forall>r \<in> set ?rows. present d' (rowKey r)"
    and c2: "\<forall>key. present (db ?w2) key \<longrightarrow> present d' key"
    by blast+
  have a: "\<forall>j<Suc k. \<forall>g \<in> set (take bsize (drop (i + j * bsize) xs)).
               present (db w') (contentType g, contentId g, locale)"
  proof (intro allI impI ballI)
    fix j g assume j: "j < Suc k" and g: "g \<in> set (take bsize (drop (i + j * bsize) xs))"
    show "present (db w') (contentType g, contentId g, locale)"
    proof (cases j)
      case 0
      with g have "g \<in> set ?batch" by simp
      from saved_keys [OF this, of "locale" ts] c1
      have "present d' (contentType g, contentId g, locale)" by force
      with keep show ?thesis by simp
    next
      case (Suc j')
      with j have "j' < k" by simp
      moreover from g Suc have "g \<in> set (take bsize (drop ((i + bsize) + j' * bsize) xs))"
        by (simp add: algebra_simps)
      ultimately show ?thesis using pres by blast
    qed
  qed
  have b: "\<forall>key. present (db w) key \<longrightarrow> present (db w') key"
    using c2 keep by (simp add: logCall_def)
  have c: "length (filter isSaveCall (calls w')) = length (filter isSaveCall (calls w)) + Suc k"
    using cnt by (simp add: logCall_def)
  have d: "last (calls w') = CallTranslateBatch (map toItem (take bsize (drop (i + Suc k * bsize) xs))) src locale"
    using lst by (simp add: algebra_simps)
  from step res a b c d show ?case by simp
qed

lemma hasKey_upsert: "hasKey (upsert r t) key = (hasKey t key \<or> key = rowKey r)"
  by (auto simp: hasKey_def upsert_def list_ex_iff)

lemma hasKey_fold_upsert:
  "hasKey (fold upsert rows t) key = (hasKey t key \<or> key \<in> rowKey ` set rows)"
  by (induction rows arbitrary: t) (auto simp: hasKey_upsert)

lemma tableAdapter_contract:
  "\<forall>d rows d'. saveTranslations (tableAdapter content) d rows = (None, d') \<longrightarrow>
     (\<forall>r \<in> set rows. hasKey d' (rowKey r)) \<and> (\<forall>key. hasKey d key \<longrightarrow> hasKey d' key)"
  by (auto simp: tableAdapter_def tableSave_def hasKey_fold_upsert)

lemma tableAdapter_never_throws:
  "\<forall>d rows. fst (saveTranslations (tableAdapter content) d rows) = None"
  by (simp add: tableAdapter_def tableSave_def)

text \<open>
  C8. Let the gaps of one locale be cut into batches of a positive size, let the provider
  answer the batches before batch \<open>k\<close> and throw on batch \<open>k\<close>, and let the store
  accept every save. Then the run for that locale ends with the provider's error, which
  also ends the loop over the locales; nothing is called after the failed provider
  call, exactly \<open>k\<close> saves were made, and for any notion \<open>present\<close> of a key being
  in the store that a save establishes for the rows it writes and keeps for the others,
  the key of every item of the batches before \<open>k\<close> is present in the store the run
  leaves, as is every key present before the run.
\<close>

theorem partial_batch_durability:
  assumes size: "0 < bsize"
    and store_ok: "\<forall>d rows. fst (saveTranslations adapter d rows) = None"
    and contract: "\<forall>d rows d'. saveTranslations adapter d rows = (None, d') \<longrightarrow>
                     (\<forall>r \<in> set rows. present d' (rowKey r)) \<and> (\<forall>key. present d key \<longrightarrow> present d' key)"
    and items: "itemsForLocale = filter (\<lambda>g. locale \<in> set (missingLocales g)) gaps"
    and batch_k: "k * bsize < length itemsForLocale"
    and earlier: "\<forall>j<k. \<exists>ts. provider (map toItem (batchAt itemsForLocale bsize j)) src locale = Inr ts"
    and fails: "provider (map toItem (batchAt itemsForLocale bsize k)) src locale = Inl e"
  shows "\<exists>w'. translateBatch gaps locale src provider adapter bsize w = Some (Inl e, w')
        \<and> translateLocales gaps src provider adapter bsize (locale # rest) tot w = Some (Inl e, w')
        \<and> (\<forall>j<k. \<forall>g \<in> set (batchAt itemsForLocale bsize j).
               present (db w') (contentType g, contentId g, locale))
        \<and> (\<forall>key. present (db w) key \<longrightarrow> present (db w') key)
        \<and> length (filter isSaveCall (calls w')) = length (filter isSaveCall (calls w)) + k
        \<and> last (calls w') = CallTranslateBatch (map toItem (batchAt itemsForLocale bsize k)) src locale"
proof -
  from batch_k have ne: "length itemsForLocale \<noteq> 0" by auto
  have p1: "0 + k * bsize < length itemsForLocale"
    using batch_k by simp
  have p2: "\<forall>j<k. \<exists>ts. provider (map toItem (take bsize (drop (0 + j * bsize) itemsForLocale))) src locale = Inr ts"
    using earlier by (simp add: batchAt_def)
  have p3: "provider (map toItem (take bsize (drop (0 + k * bsize) itemsForLocale))) src locale = Inl e"
    using fails by (simp add: batchAt_def)
  have "\<exists>w'. translateBatchLoop itemsForLocale locale src provider adapter bsize 0 0 w = Some (Inl e, w')
        \<and> (\<forall>j<k. \<forall>g \<in> set (take bsize (drop (0 + j * bsize) itemsForLocale)).
               present (db w') (contentType g, contentId g, locale))
        \<and> (\<forall>key. present (db w) key \<longrightarrow> present (db w') key)
        \<and> length (filter isSaveCall (calls w')) = length (filter isSaveCall (calls w)) + k
        \<and> last (calls w') = CallTranslateBatch (map toItem (take bsize (drop (0 + k * bsize) itemsForLocale))) src locale"
    using size store_ok contract p1 p2 p3
    by (rule translateBatchLoop_abort [where i = 0 and k = k and xs = itemsForLocale and provider = provider
          and adapter = adapter and bsize = bsize and present = present and src = src
          and e = e and tot = 0 and w = w])
  then obtain w' where res: "translateBatchLoop itemsForLocale locale src provider adapter bsize 0 0 w = Some (Inl e, w')"
    and r1: "\<forall>j<k. \<forall>g \<in> set (take bsize (drop (0 + j * bsize) itemsForLocale)).
               present (db w') (contentType g, contentId g, locale)"
    and r2: "\<forall>key. present (db w) key \<longrightarrow> present (db w') key"
    and r3: "length (filter isSaveCall (calls w')) = length (filter isSaveCall (calls w)) + k"
    and r4: "last (calls w') = CallTranslateBatch (map toItem (take bsize (drop (0 + k * bsize) itemsForLocale))) src locale"
    by blast
  have tb: "translateBatch gaps locale src provider adapter bsize w = Some (Inl e, w')"
    using res ne items by (simp add: translateBatch_def Let_def)
  then have tl: "translateLocales gaps src provider adapter bsize (locale # rest) tot w = Some (Inl e, w')"
    by simp
  from r1 have r1': "\<forall>j<k. \<forall>g \<in> set (batchAt itemsForLocale bsize j).
               present (db w') (contentType g, contentId g, locale)"
    by (simp add: batchAt_def)
  from r4 have r4': "last (calls w') = CallTranslateBatch (map toItem (batchAt itemsForLocale bsize k)) src locale"
    by (simp add: batchAt_def)
  from tb tl r1' r2 r3 r4' show ?thesis by blast
qed



theorem partial_batch_durability_witness:
  "(0::nat) < 1
   \<and> 1 * 1 < length (filter (\<lambda>g. ''es'' \<in> set (missingLocales g)) threeGaps)
   \<and> failingProvider (map toItem (batchAt threeGaps 1 0)) ''en'' ''es'' = Inr [''es:Hello'']
   \<and> failingProvider (map toItem (batchAt threeGaps 1 1)) ''en'' ''es'' = Inl (Error ''provider down'')
   \<and> (\<exists>w'. translateBatch threeGaps ''es'' ''en'' failingProvider (tableAdapter None) 1
                \<lparr>db = [], calls = []\<rparr> = Some (Inl (Error ''provider down''), w')
          \<and> hasKey (db w') (''greeting'', ''1'', ''es'')
          \<and> length (filter isSaveCall (calls w')) = 1
          \<and> last (calls w') = CallTranslateBatch
                [\<lparr>contentType = ''farewell'', contentId = ''2'', item_text = ''Bye''\<rparr>] ''en'' ''es'')"
proof -
  have items: "threeGaps = filter (\<lambda>g. ''es'' \<in> set (missingLocales g)) threeGaps"
    by simp
  have h1: "(0::nat) < 1" by simp
  have h2: "1 * 1 < length threeGaps" by simp
  have b0: "batchAt threeGaps 1 0 = [threeGaps ! 0]"
    by (simp add: batchAt_def)
  have b1: "batchAt threeGaps 1 1 = [threeGaps ! 1]"
    by (simp add: batchAt_def)
  have h5: "failingProvider (map toItem (batchAt threeGaps 1 0)) ''en'' ''es'' = Inr [''es:Hello'']"
    unfolding b0 by (simp add: toItem_def)
  have h3: "\<forall>j<1. \<exists>ts. failingProvider (map toItem (batchAt threeGaps 1 j)) ''en'' ''es'' = Inr ts"
    using h5 by simp
  have h4: "failingProvider (map toItem (batchAt threeGaps 1 1)) ''en'' ''es'' = Inl (Error ''provider down'')"
    unfolding b1 by (simp add: toItem_def)
  have "\<exists>w'. translateBatch threeGaps ''es'' ''en'' failingProvider (tableAdapter None) 1
                \<lparr>db = [], calls = []\<rparr> = Some (Inl (Error ''provider down''), w')
        \<and> translateLocales threeGaps ''en'' failingProvider (tableAdapter None) 1 [''es''] 0
                \<lparr>db = [], calls = []\<rparr> = Some (Inl (Error ''provider down''), w')
        \<and> (\<forall>j<1. \<forall>g \<in> set (batchAt threeGaps 1 j). hasKey (db w') (contentType g, contentId g, ''es''))
        \<and> (\<forall>key. hasKey (db \<lparr>db = ([] :: SaveRow list), calls = []\<rparr>) key \<longrightarrow> hasKey (db w') key)
        \<and> length (filter isSaveCall (calls w'))
            = length (filter isSaveCall (calls \<lparr>db = ([] :: SaveRow list), calls = []\<rparr>)) + 1
        \<and> last (calls w') = CallTranslateBatch (map toItem (batchAt threeGaps 1 1)) ''en'' ''es''"
    using h1 tableAdapter_never_throws tableAdapter_contract items h2 h3 h4
    by (rule partial_batch_durability [where bsize = 1 and adapter = "tableAdapter None"
          and present = hasKey and itemsForLocale = threeGaps and gaps = threeGaps and k = 1
          and provider = failingProvider and src = "''en''" and e = "Error ''provider down''"
          and w = "\<lparr>db = [], calls = []\<rparr>" and rest = "[]" and tot = 0])
  then obtain w' where r: "translateBatch threeGaps ''es'' ''en'' failingProvider (tableAdapter None) 1
                \<lparr>db = [], calls = []\<rparr> = Some (Inl (Error ''provider down''), w')"
    and p: "\<forall>j<1. \<forall>g \<in> set (batchAt threeGaps 1 j). hasKey (db w') (contentType g, contentId g, ''es'')"
    and n: "length (filter isSaveCall (calls w'))
            = length (filter isSaveCall (calls \<lparr>db = ([] :: SaveRow list), calls = []\<rparr>)) + 1"
    and l: "last (calls w') = CallTranslateBatch (map toItem (batchAt threeGaps 1 1)) ''en'' ''es''"
    by blast
  from p have "\<forall>g \<in> set (batchAt threeGaps 1 0). hasKey (db w') (contentType g, contentId g, ''es'')"
    by simp
  then have k: "hasKey (db w') (''greeting'', ''1'', ''es'')"
    unfolding b0 by simp
  from n have n': "length (filter isSaveCall (calls w')) = 1"
    by simp
  from l have l': "last (calls w') = CallTranslateBatch
                [\<lparr>contentType = ''farewell'', contentId = ''2'', item_text = ''Bye''\<rparr>] ''en'' ''es''"
    unfolding b1 by (simp add: toItem_def)
  from r k n' l' have "\<exists>w'. translateBatch threeGaps ''es'' ''en'' failingProvider (tableAdapter None) 1
                \<lparr>db = [], calls = []\<rparr> = Some (Inl (Error ''provider down''), w')
          \<and> hasKey (db w') (''greeting'', ''1'', ''es'')
          \<and> length (filter isSaveCall (calls w')) = 1
          \<and> last (calls w') = CallTranslateBatch
                [\<lparr>contentType = ''farewell'', contentId = ''2'', item_text = ''Bye''\<rparr>] ''en'' ''es''"
    by blast
  moreover have "1 * 1 < length (filter (\<lambda>g. ''es'' \<in> set (missingLocales g)) threeGaps)"
    by simp
  ultimately show ?thesis using h1 h4 h5
    by blast
qed

section \<open>Change sensitivity of the fingerprint\<close>

lemma length_join:
  "length (join sep xs) = sum_list (map length xs) + length sep * (length xs - 1)"
  by (induction sep xs rule: join.induct) simp_all

lemma sum_list_length_mset:
  "mset xs = mset ys \<Longrightarrow> sum_list (map length xs) = sum_list (map length ys)"
proof -
  assume "mset xs = mset ys"
  then have "mset (map length xs) = mset (map length ys)" by (metis mset_map)
  then show ?thesis by (metis sum_mset_sum_list)
qed

lemma length_contentString:
  "length (contentString items) = sum_list (map (length \<circ> itemLine) items) + (length items - 1)"
proof -
  have "mset (sort (map itemLine items)) = mset (map itemLine items)" by simp
  then have "sum_list (map length (sort (map itemLine items))) = sum_list (map length (map itemLine items))"
    by (rule sum_list_length_mset)
  then show ?thesis by (simp add: contentString_def length_join comp_def)
qed

lemma length_itemLine: "2 \<le> length (itemLine x)"
  by (simp add: itemLine_def)

lemma add_changes_length:
  assumes "mset B = add_mset x (mset A)"
  shows "length (contentString A) < length (contentString B)"
proof -
  from assms have "mset (map (length \<circ> itemLine) B) = add_mset (length (itemLine x)) (mset (map (length \<circ> itemLine) A))"
    by (metis comp_apply image_mset_add_mset mset_map)
  then have "sum_mset (mset (map (length \<circ> itemLine) B))
        = length (itemLine x) + sum_mset (mset (map (length \<circ> itemLine) A))"
    by simp
  then have s: "sum_list (map (length \<circ> itemLine) B) = length (itemLine x) + sum_list (map (length \<circ> itemLine) A)"
    by (simp only: sum_mset_sum_list)
  from assms have "size (mset B) = Suc (size (mset A))" by simp
  then have l: "length B = Suc (length A)" by simp
  from s l length_itemLine [of x] show ?thesis
    by (simp add: length_contentString)
qed

lemma split_unique:
  "c \<notin> set a \<Longrightarrow> c \<notin> set b \<Longrightarrow> a @ c # r = b @ c # s \<Longrightarrow> a = b \<and> r = s"
proof (induction a arbitrary: b)
  case Nil
  then show ?case by (cases b) auto
next
  case (Cons x a)
  then show ?case by (cases b) auto
qed

lemma join_bar_inj:
  "\<forall>x \<in> set xs \<union> set ys. CHR ''|'' \<notin> set x \<and> x \<noteq> [] \<Longrightarrow>
     join ''|'' xs = join ''|'' ys \<Longrightarrow> xs = ys"
proof (induction xs arbitrary: ys)
  case Nil
  show ?case
  proof (cases ys)
    case Nil
    then show ?thesis by simp
  next
    case (Cons u us)
    with Nil.prems show ?thesis by (cases us) auto
  qed
next
  case (Cons x xs)
  show ?case
  proof (cases ys)
    case Nil
    with Cons.prems show ?thesis by (cases xs) auto
  next
    case ys: (Cons u us)
    show ?thesis
    proof (cases xs)
      case Nil
      show ?thesis
      proof (cases us)
        case Nil
        with \<open>xs = []\<close> ys Cons.prems show ?thesis by simp
      next
        case (Cons v vs)
        with \<open>xs = []\<close> ys Cons.prems(2) have "x = u @ CHR ''|'' # join ''|'' (v # vs)" by simp
        then have "CHR ''|'' \<in> set x" by simp
        with Cons.prems(1) show ?thesis by simp
      qed
    next
      case xs: (Cons y ys')
      show ?thesis
      proof (cases us)
        case Nil
        with xs ys Cons.prems(2) have "u = x @ CHR ''|'' # join ''|'' (y # ys')" by simp
        then have "CHR ''|'' \<in> set u" by simp
        with Cons.prems(1) ys show ?thesis by simp
      next
        case us: (Cons v vs)
        from xs ys us Cons.prems(2)
        have e: "x @ CHR ''|'' # join ''|'' xs = u @ CHR ''|'' # join ''|'' us" by simp
        from Cons.prems(1) ys have "CHR ''|'' \<notin> set x" "CHR ''|'' \<notin> set u" by simp_all
        from split_unique [OF this e] have xu: "x = u" and r: "join ''|'' xs = join ''|'' us" by simp_all
        from Cons.prems(1) ys have "\<forall>x \<in> set xs \<union> set us. CHR ''|'' \<notin> set x \<and> x \<noteq> []" by simp
        from Cons.IH [OF this r] xu ys show ?thesis by simp
      qed
    qed
  qed
qed

lemma itemLine_nonempty: "itemLine x \<noteq> []"
  by (simp add: itemLine_def)

lemma contentString_lines:
  assumes clean: "\<forall>y \<in> set A \<union> set B. barFree y"
    and eq: "contentString A = contentString B"
  shows "mset (map itemLine A) = mset (map itemLine B)"
proof -
  have "\<forall>x \<in> set (sort (map itemLine A)) \<union> set (sort (map itemLine B)). CHR ''|'' \<notin> set x \<and> x \<noteq> []"
    using clean by (auto simp: barFree_def itemLine_nonempty)
  from join_bar_inj [OF this] eq have "sort (map itemLine A) = sort (map itemLine B)"
    by (simp add: contentString_def)
  then have "mset (sort (map itemLine A)) = mset (sort (map itemLine B))" by simp
  then show ?thesis by (simp only: mset_sort)
qed

lemma itemLine_text_inj:
  "itemLine (i\<lparr>item_text := t\<rparr>) = itemLine i \<Longrightarrow> t = item_text i"
  by (simp add: itemLine_def)

lemma itemLine_inj:
  assumes "sepFree a" "sepFree b" "itemLine a = itemLine b"
  shows "a = b"
proof -
  from assms have ca: "CHR '':'' \<notin> set (contentType a)" and cb: "CHR '':'' \<notin> set (contentType b)"
    and ia: "CHR '':'' \<notin> set (contentId a)" and ib: "CHR '':'' \<notin> set (contentId b)"
    by (simp_all add: sepFree_def)
  from assms(3) have e: "contentType a @ CHR '':'' # (contentId a @ CHR '':'' # item_text a)
        = contentType b @ CHR '':'' # (contentId b @ CHR '':'' # item_text b)"
    by (simp add: itemLine_def)
  from split_unique [OF ca cb e] have t: "contentType a = contentType b"
    and r: "contentId a @ CHR '':'' # item_text a = contentId b @ CHR '':'' # item_text b"
    by simp_all
  from split_unique [OF ia ib r] have "contentId a = contentId b" "item_text a = item_text b"
    by simp_all
  with t show ?thesis by simp
qed

lemma mset_map_inj_on:
  assumes "mset (map f A) = mset (map f B)" and "inj_on f (set A \<union> set B)"
  shows "mset A = mset B"
proof -
  from assms(1) have "image_mset f (mset A) = image_mset f (mset B) + {#}" by simp
  moreover from assms(2) have "inj_on f (set_mset (mset A) \<union> set_mset (mset B))" by simp
  ultimately obtain C where "mset A = mset B + C" and "{#} = image_mset f C"
    using image_mset_eq_image_mset_plusD by blast
  then show ?thesis by simp
qed

text \<open>
  The fingerprint itself is 16 characters of a digest, so for every digest function two
  texts of one item have the same fingerprint; what an edit can be shown to change is
  the content string that is digested.
\<close>

lemma fingerprint_collides:
  "\<exists>t t'. t \<noteq> t' \<and>
     viewContentHash H [\<lparr>contentType = ct, contentId = cid, item_text = t\<rparr>]
     = viewContentHash H [\<lparr>contentType = ct, contentId = cid, item_text = t'\<rparr>]"
proof (rule ccontr)
  let ?f = "\<lambda>t. viewContentHash H [\<lparr>contentType = ct, contentId = cid, item_text = t\<rparr>]"
  assume "\<not> ?thesis"
  then have "inj ?f"
    by (auto simp: inj_on_def)
  have "finite {s :: string. set s \<subseteq> UNIV \<and> length s \<le> 16}"
    by (rule finite_lists_length_le) simp
  moreover have "range ?f \<subseteq> {s :: string. set s \<subseteq> UNIV \<and> length s \<le> 16}"
    by (auto simp: viewContentHash_def)
  ultimately have "finite (range ?f)"
    by (rule rev_finite_subset)
  with \<open>inj ?f\<close> have "finite (UNIV :: string set)"
    using finite_imageD by blast
  then show False
    using infinite_UNIV_listI by blast
qed

text \<open>
  C6 (as amended). The fingerprint is the first 16 characters of the digest of the
  content string, in which the fields are joined by \<open>:\<close> and the items by \<open>|\<close>,
  neither escaped. Adding an item to a view or removing one always changes the content
  string. Changing the text of one item changes it when no item's line holds \<open>|\<close>.
  Two views that differ as multisets have different content strings when, in both, no
  content type or content id holds \<open>:\<close> and no line holds \<open>|\<close>.
\<close>

theorem content_string_change_sensitive:
  "(mset B = add_mset x (mset A) \<longrightarrow> contentString A \<noteq> contentString B)
   \<and> (mset A = add_mset i M \<and> mset B = add_mset (i\<lparr>item_text := t\<rparr>) M \<and> t \<noteq> item_text i
        \<and> (\<forall>y \<in> set A \<union> set B. barFree y)
      \<longrightarrow> contentString A \<noteq> contentString B)
   \<and> ((\<forall>y \<in> set A \<union> set B. sepFree y) \<and> mset A \<noteq> mset B
      \<longrightarrow> contentString A \<noteq> contentString B)"
proof (intro conjI impI)
  assume "mset B = add_mset x (mset A)"
  from add_changes_length [OF this] show "contentString A \<noteq> contentString B"
    by auto
next
  assume a: "mset A = add_mset i M \<and> mset B = add_mset (i\<lparr>item_text := t\<rparr>) M \<and> t \<noteq> item_text i
        \<and> (\<forall>y \<in> set A \<union> set B. barFree y)"
  show "contentString A \<noteq> contentString B"
  proof
    assume "contentString A = contentString B"
    with a have "mset (map itemLine A) = mset (map itemLine B)"
      by (intro contentString_lines) simp_all
    then have "image_mset itemLine (mset A) = image_mset itemLine (mset B)" by simp
    with a have "itemLine i = itemLine (i\<lparr>item_text := t\<rparr>)" by simp
    then have "t = item_text i" by (intro itemLine_text_inj) simp
    with a show False by simp
  qed
next
  assume a: "(\<forall>y \<in> set A \<union> set B. sepFree y) \<and> mset A \<noteq> mset B"
  show "contentString A \<noteq> contentString B"
  proof
    assume e: "contentString A = contentString B"
    from a have "\<forall>y \<in> set A \<union> set B. barFree y" by (simp add: sepFree_def barFree_def)
    from contentString_lines [OF this e] have m: "mset (map itemLine A) = mset (map itemLine B)" .
    from a have "inj_on itemLine (set A \<union> set B)"
      by (intro inj_onI itemLine_inj) auto
    from mset_map_inj_on [OF m this] a show False by simp
  qed
qed


theorem content_string_change_sensitive_witness:
  "mset [greeting, farewell] = add_mset farewell (mset [greeting])
   \<and> contentString [greeting] \<noteq> contentString [greeting, farewell]
   \<and> ''Hi'' \<noteq> item_text greeting
   \<and> barFree greeting \<and> barFree (greeting\<lparr>item_text := ''Hi''\<rparr>)
   \<and> contentString [greeting] \<noteq> contentString [greeting\<lparr>item_text := ''Hi''\<rparr>]
   \<and> sepFree greeting \<and> sepFree farewell
   \<and> mset [greeting] \<noteq> mset [farewell]
   \<and> contentString [greeting] \<noteq> contentString [farewell]"
proof -
  have a1: "mset [greeting, farewell] = add_mset farewell (mset [greeting])"
    by simp
  have b1: "mset [greeting] = add_mset greeting {#}
       \<and> mset [greeting\<lparr>item_text := ''Hi''\<rparr>] = add_mset (greeting\<lparr>item_text := ''Hi''\<rparr>) {#}
       \<and> ''Hi'' \<noteq> item_text greeting
       \<and> (\<forall>y \<in> set [greeting] \<union> set [greeting\<lparr>item_text := ''Hi''\<rparr>]. barFree y)"
    by (simp add: barFree_def itemLine_def)
  have c1: "(\<forall>y \<in> set [greeting] \<union> set [farewell]. sepFree y) \<and> mset [greeting] \<noteq> mset [farewell]"
    by (simp add: sepFree_def itemLine_def)
  note t1 = content_string_change_sensitive [of "[greeting, farewell]" farewell "[greeting]"
      greeting "{#}" "''Hi''"]
  note t2 = content_string_change_sensitive [of "[greeting\<lparr>item_text := ''Hi''\<rparr>]" farewell "[greeting]"
      greeting "{#}" "''Hi''"]
  note t3 = content_string_change_sensitive [of "[farewell]" farewell "[greeting]"
      greeting "{#}" "''Hi''"]
  from t1 a1 have r1: "contentString [greeting] \<noteq> contentString [greeting, farewell]"
    by blast
  from t2 b1 have r2: "contentString [greeting] \<noteq> contentString [greeting\<lparr>item_text := ''Hi''\<rparr>]"
    by blast
  from t3 c1 have r3: "contentString [greeting] \<noteq> contentString [farewell]"
    by blast
  from b1 have b2: "barFree greeting \<and> barFree (greeting\<lparr>item_text := ''Hi''\<rparr>) \<and> ''Hi'' \<noteq> item_text greeting"
    by simp
  from c1 have c2: "sepFree greeting \<and> sepFree farewell \<and> mset [greeting] \<noteq> mset [farewell]"
    by simp
  from a1 r1 r2 r3 b2 c2 show ?thesis
    by blast
qed

text \<open>
  Without that restriction an edit can leave the content string, and so the fingerprint,
  as it was. In the view below the first item's text is changed from \<open>x:m|t:1:y\<close> to
  \<open>y|t:1:x:m\<close>; both views have the content string
  \<open>t:1:x:m|t:1:y|t:1:x:m|t:1:y|t:1:x:m\<close>.
\<close>

theorem separator_collision_counterexample:
  "contentString [\<lparr>contentType = ''t'', contentId = ''1'', item_text = ''x:m|t:1:y''\<rparr>,
                  \<lparr>contentType = ''t'', contentId = ''1:x'', item_text = ''m|t:1:y|t:1:x:m''\<rparr>]
     = contentString [\<lparr>contentType = ''t'', contentId = ''1'', item_text = ''y|t:1:x:m''\<rparr>,
                      \<lparr>contentType = ''t'', contentId = ''1:x'', item_text = ''m|t:1:y|t:1:x:m''\<rparr>]
   \<and> mset [\<lparr>contentType = ''t'', contentId = ''1'', item_text = ''x:m|t:1:y''\<rparr>,
            \<lparr>contentType = ''t'', contentId = ''1:x'', item_text = ''m|t:1:y|t:1:x:m''\<rparr>]
     \<noteq> mset [\<lparr>contentType = ''t'', contentId = ''1'', item_text = ''y|t:1:x:m''\<rparr>,
              \<lparr>contentType = ''t'', contentId = ''1:x'', item_text = ''m|t:1:y|t:1:x:m''\<rparr>]"
  by (simp add: contentString_def itemLine_def)

section \<open>Provider answers of the wrong length\<close>

lemma nth_viewTranslationsToSave:
  "i < length items \<Longrightarrow>
     viewTranslationsToSave H locale items ts ! i
     = \<lparr>content_type = contentType (items ! i), content_id = contentId (items ! i),
        translated_text = (if i < length ts then Some (ts ! i) else None),
        source_hash = H (item_text (items ! i)),
        row_locale = locale, original_text = item_text (items ! i)\<rparr>"
  by (simp add: viewTranslationsToSave_def nth_enumerate_eq js_nth_def viewSourceHash_def)

lemma nth_cliTranslationsToSave:
  "i < length batch \<Longrightarrow>
     cliTranslationsToSave locale batch ts ! i
     = \<lparr>content_type = contentType (batch ! i), content_id = contentId (batch ! i),
        translated_text = (if i < length ts then Some (ts ! i) else None),
        source_hash = sourceHash (batch ! i),
        row_locale = locale, original_text = item_text (batch ! i)\<rparr>"
  by (simp add: cliTranslationsToSave_def nth_enumerate_eq js_nth_def)

lemma partitionItems_fold:
  "fold (\<lambda>item (newCache, uncachedItems).
             let key = cacheKey (contentType item) (contentId item);
                 cached = js_get m key
             in if truthy cached then (newCache(key \<mapsto> cached), uncachedItems)
                else (newCache, uncachedItems @ [item]))
        items (c, acc)
   = (fold (\<lambda>item newCache.
              let key = cacheKey (contentType item) (contentId item)
              in if truthy (js_get m key) then newCache(key \<mapsto> js_get m key) else newCache)
           items c,
      acc @ filter (\<lambda>item. \<not> truthy (js_get m (cacheKey (contentType item) (contentId item)))) items)"
  by (induction items arbitrary: c acc) (simp_all add: Let_def)

lemma snd_partitionItems:
  "snd (partitionItems m items)
   = filter (\<lambda>item. \<not> truthy (js_get m (cacheKey (contentType item) (contentId item)))) items"
  by (simp add: partitionItems_def partitionItems_fold)

lemma fst_partitionItems_fold:
  "fold (\<lambda>item newCache.
              let key = cacheKey (contentType item) (contentId item)
              in if truthy (js_get m key) then newCache(key \<mapsto> js_get m key) else newCache)
        items c k
   = (if truthy (js_get m k) \<and> k \<in> (\<lambda>item. cacheKey (contentType item) (contentId item)) ` set items
      then Some (js_get m k) else c k)"
  by (induction items arbitrary: c) (auto simp: Let_def)

lemma fst_partitionItems:
  "fst (partitionItems m items) k
   = (if truthy (js_get m k) \<and> k \<in> (\<lambda>item. cacheKey (contentType item) (contentId item)) ` set items
      then Some (js_get m k) else None)"
  by (simp add: partitionItems_def partitionItems_fold fst_partitionItems_fold)

lemma addToCache_fold_other:
  "k \<notin> (\<lambda>item. cacheKey (contentType item) (contentId item)) ` set xs \<Longrightarrow>
     fold (\<lambda>(idx, item) c.
             c(cacheKey (contentType item) (contentId item) \<mapsto> js_nth ts idx))
          (enumerate n xs) c0 k = c0 k"
  by (induction xs arbitrary: n c0) auto

lemma addToCache_fold_nth:
  "i < length xs \<Longrightarrow>
   (\<forall>j. i < j \<and> j < length xs \<longrightarrow>
        cacheKey (contentType (xs ! j)) (contentId (xs ! j))
        \<noteq> cacheKey (contentType (xs ! i)) (contentId (xs ! i))) \<Longrightarrow>
   fold (\<lambda>(idx, item) c.
             c(cacheKey (contentType item) (contentId item) \<mapsto> js_nth ts idx))
        (enumerate n xs) c0 (cacheKey (contentType (xs ! i)) (contentId (xs ! i)))
   = Some (js_nth ts (n + i))"
proof (induction xs arbitrary: n c0 i)
  case Nil
  then show ?case by simp
next
  case (Cons x xs)
  show ?case
  proof (cases i)
    case 0
    have "cacheKey (contentType x) (contentId x)
        \<notin> (\<lambda>item. cacheKey (contentType item) (contentId item)) ` set xs"
    proof
      assume "cacheKey (contentType x) (contentId x)
        \<in> (\<lambda>item. cacheKey (contentType item) (contentId item)) ` set xs"
      then obtain y where y: "y \<in> set xs"
        and e: "cacheKey (contentType x) (contentId x) = cacheKey (contentType y) (contentId y)"
        by auto
      from y obtain j where j: "j < length xs" "xs ! j = y"
        by (auto simp: in_set_conv_nth)
      from Cons.prems(2) 0 j have "cacheKey (contentType ((x # xs) ! Suc j)) (contentId ((x # xs) ! Suc j))
        \<noteq> cacheKey (contentType x) (contentId x)"
        by auto
      with j e show False by simp
    qed
    then have "fold (\<lambda>(idx, item) c.
             c(cacheKey (contentType item) (contentId item) \<mapsto> js_nth ts idx))
          (enumerate (Suc n) xs) (c0(cacheKey (contentType x) (contentId x) \<mapsto> js_nth ts n))
          (cacheKey (contentType x) (contentId x))
        = (c0(cacheKey (contentType x) (contentId x) \<mapsto> js_nth ts n))
          (cacheKey (contentType x) (contentId x))"
      by (rule addToCache_fold_other)
    with 0 show ?thesis by (simp add: fun_upd_def)
  next
    case (Suc i')
    from Cons.prems(1) Suc have a: "i' < length xs" by simp
    have b: "\<forall>j. i' < j \<and> j < length xs \<longrightarrow>
        cacheKey (contentType (xs ! j)) (contentId (xs ! j))
        \<noteq> cacheKey (contentType (xs ! i')) (contentId (xs ! i'))"
    proof (intro allI impI)
      fix j assume "i' < j \<and> j < length xs"
      with Suc have "i < Suc j \<and> Suc j < length (x # xs)" by simp
      with Cons.prems(2) have "cacheKey (contentType ((x # xs) ! Suc j)) (contentId ((x # xs) ! Suc j))
        \<noteq> cacheKey (contentType ((x # xs) ! i)) (contentId ((x # xs) ! i))"
        by blast
      with Suc show "cacheKey (contentType (xs ! j)) (contentId (xs ! j))
        \<noteq> cacheKey (contentType (xs ! i')) (contentId (xs ! i'))"
        by simp
    qed
    from Cons.IH [OF a b] Suc show ?thesis by simp
  qed
qed

lemma addToCache_nth:
  "i < length xs \<Longrightarrow>
   (\<forall>j. i < j \<and> j < length xs \<longrightarrow>
        cacheKey (contentType (xs ! j)) (contentId (xs ! j))
        \<noteq> cacheKey (contentType (xs ! i)) (contentId (xs ! i))) \<Longrightarrow>
   addToCache xs ts c0 (cacheKey (contentType (xs ! i)) (contentId (xs ! i))) = Some (js_nth ts i)"
  using addToCache_fold_nth [of i xs ts 0 c0] by (simp add: addToCache_def)

lemma addToCache_other:
  "k \<notin> (\<lambda>item. cacheKey (contentType item) (contentId item)) ` set xs \<Longrightarrow>
     addToCache xs ts c0 k = c0 k"
  by (simp add: addToCache_def addToCache_fold_other)

lemma translateFresh_sends_uncached:
  assumes "getCachedTranslations (database config) (db st) items (Some loc) = Inr cachedResults"
    and "partitionItems (cachedMapOf cachedResults) items = (newCache, uncachedItems)"
    and "uncachedItems \<noteq> []"
    and "llm config uncachedItems defaultLocale loc = Inr ts"
    and "saveTranslations (database config) (db st) (viewTranslationsToSave H loc uncachedItems ts) = (None, d')"
  shows "translateFresh H config now viewName loc defaultLocale items st
     = st\<lparr>db := d',
          calls := calls st @ [CallGetCached items (Some loc),
                               CallTranslateBatch uncachedItems defaultLocale loc,
                               CallSave (viewTranslationsToSave H loc uncachedItems ts)],
          cache := addToCache uncachedItems ts newCache,
          isTranslating := False,
          localStorage := (localStorage st)(metadataKey viewName loc \<mapsto>
             \<lparr>contentHash = viewContentHash H items, lastTranslated = now, metaLocale = loc,
              itemCount = length items\<rparr>)\<rparr>"
  using assms
  by (simp add: translateFresh_def logCall_def settle_def Let_def)

lemma translateBatchLoop_step:
  assumes "i < length xs"
    and "provider (map toItem (take bsize (drop i xs))) src loc = Inr ts"
    and "saveTranslations adapter (db w) (cliTranslationsToSave loc (take bsize (drop i xs)) ts) = (None, d2)"
  shows "translateBatchLoop xs loc src provider adapter bsize i tot w
     = translateBatchLoop xs loc src provider adapter bsize (i + bsize) (tot + length ts)
         (w\<lparr>calls := calls w @ [CallTranslateBatch (map toItem (take bsize (drop i xs))) src loc,
                                CallSave (cliTranslationsToSave loc (take bsize (drop i xs)) ts)],
            db := d2\<rparr>)"
  using assms
  by (subst translateBatchLoop.simps) (simp add: logCall_def Let_def)

lemma translateBatchLoop_returns:
  assumes size: "0 < bsize"
    and answers: "\<forall>its. \<exists>ts. provider its src loc = Inr ts"
    and store_ok: "\<forall>d rows. fst (saveTranslations adapter d rows) = None"
  shows "\<exists>n w'. translateBatchLoop xs loc src provider adapter bsize i tot w = Some (Inr n, w')"
proof (induction "length xs - i" arbitrary: i tot w rule: less_induct)
  case less
  show ?case
  proof (cases "i < length xs")
    case False
    then show ?thesis
      by (subst translateBatchLoop.simps) simp
  next
    case True
    let ?batch = "take bsize (drop i xs)"
    from answers obtain ts where ts: "provider (map toItem ?batch) src loc = Inr ts"
      by blast
    obtain d2 where sv: "saveTranslations adapter (db w) (cliTranslationsToSave loc ?batch ts) = (None, d2)"
      using store_ok by (metis prod.collapse)
    from True size have "length xs - (i + bsize) < length xs - i"
      by simp
    moreover have "translateBatchLoop xs loc src provider adapter bsize i tot w
     = translateBatchLoop xs loc src provider adapter bsize (i + bsize) (tot + length ts)
         (w\<lparr>calls := calls w @ [CallTranslateBatch (map toItem ?batch) src loc,
                                CallSave (cliTranslationsToSave loc ?batch ts)],
            db := d2\<rparr>)"
      using True ts sv by (rule translateBatchLoop_step)
    ultimately show ?thesis
      using less.hyps by simp
  qed
qed


lemma translateBatchLoop_any_count:
  assumes "xs \<noteq> []" and "length xs \<le> bsize"
    and "provider (map toItem xs) src locale = Inr ts"
    and "saveTranslations adapter (db w) (cliTranslationsToSave locale xs ts) = (None, d')"
  shows "translateBatchLoop xs locale src provider adapter bsize 0 0 w
     = Some (Inr (length ts),
             w\<lparr>db := d',
               calls := calls w @ [CallTranslateBatch (map toItem xs) src locale,
                                   CallSave (cliTranslationsToSave locale xs ts)]\<rparr>)"
proof -
  from assms(1,2) have b: "0 < length xs" "\<not> bsize < length xs" "take bsize xs = xs"
    by simp_all
  show ?thesis
    apply (subst translateBatchLoop.simps)
    apply (subst translateBatchLoop.simps)
    using assms b
    apply (simp add: logCall_def Let_def)
    done
qed


text \<open>
  C4 (as amended). Neither caller compares the number of strings the provider returns
  with the number of items sent, and neither fails on a mismatch.

  The coordinator, whatever rows the store returned, sends exactly the items without a
  truthy cached text, in their order; when the provider answers and the save succeeds,
  it has saved the records built from the items sent and the answer, has set the cache
  from the cached texts and the same pairing, and has settled. The batch engine, at
  every index of its loop, saves the records built from that slice and the answer, adds
  the number of strings returned to its total and goes on with the next slice; with a
  positive batch size, a provider that always answers and a store that accepts every
  save, the run returns a count whatever the lengths of the answers.

  Both build one record per item sent and pair by position: the record of item \<open>i\<close>
  carries that item's type, id and text and, as translated text, the provider's
  \<open>i\<close>-th string when there is one and \<open>undefined\<close> otherwise; strings beyond the
  items are dropped. The cache gets the same value under the key of item \<open>i\<close> (when no
  later item has that key) and keeps the other keys.
\<close>

theorem count_mismatch_pairs_by_position:
  "length (viewTranslationsToSave H loc sent ts) = length sent
   \<and> length (cliTranslationsToSave loc batch ts') = length batch
   \<and> (\<forall>i < length sent.
          viewTranslationsToSave H loc sent ts ! i
          = \<lparr>content_type = contentType (sent ! i), content_id = contentId (sent ! i),
             translated_text = (if i < length ts then Some (ts ! i) else None),
             source_hash = H (item_text (sent ! i)),
             row_locale = loc, original_text = item_text (sent ! i)\<rparr>)
   \<and> (\<forall>i < length batch.
          cliTranslationsToSave loc batch ts' ! i
          = \<lparr>content_type = contentType (batch ! i), content_id = contentId (batch ! i),
             translated_text = (if i < length ts' then Some (ts' ! i) else None),
             source_hash = sourceHash (batch ! i),
             row_locale = loc, original_text = item_text (batch ! i)\<rparr>)
   \<and> (\<forall>i < length sent.
          (\<forall>j. i < j \<and> j < length sent \<longrightarrow>
               cacheKey (contentType (sent ! j)) (contentId (sent ! j))
               \<noteq> cacheKey (contentType (sent ! i)) (contentId (sent ! i))) \<longrightarrow>
          addToCache sent ts c0 (cacheKey (contentType (sent ! i)) (contentId (sent ! i)))
          = Some (if i < length ts then Some (ts ! i) else None))
   \<and> (\<forall>k. k \<notin> (\<lambda>item. cacheKey (contentType item) (contentId item)) ` set sent \<longrightarrow>
          addToCache sent ts c0 k = c0 k)
   \<and> snd (partitionItems cachedMap items)
       = filter (\<lambda>item. \<not> truthy (js_get cachedMap (cacheKey (contentType item) (contentId item))))
                items
   \<and> (getCachedTranslations (database config) (db st) items (Some loc) = Inr cachedResults
        \<and> partitionItems (cachedMapOf cachedResults) items = (newCache, uncachedItems)
        \<and> uncachedItems \<noteq> []
        \<and> llm config uncachedItems defaultLocale loc = Inr ts
        \<and> saveTranslations (database config) (db st)
              (viewTranslationsToSave H loc uncachedItems ts) = (None, d')
      \<longrightarrow> translateFresh H config now viewName loc defaultLocale items st
          = st\<lparr>db := d',
               calls := calls st @ [CallGetCached items (Some loc),
                                    CallTranslateBatch uncachedItems defaultLocale loc,
                                    CallSave (viewTranslationsToSave H loc uncachedItems ts)],
               cache := addToCache uncachedItems ts newCache,
               isTranslating := False,
               localStorage := (localStorage st)(metadataKey viewName loc \<mapsto>
                  \<lparr>contentHash = viewContentHash H items, lastTranslated = now, metaLocale = loc,
                   itemCount = length items\<rparr>)\<rparr>)
   \<and> (i0 < length xs
        \<and> provider (map toItem (take bsize (drop i0 xs))) src loc = Inr ts'
        \<and> saveTranslations adapter (db w)
              (cliTranslationsToSave loc (take bsize (drop i0 xs)) ts') = (None, d2)
      \<longrightarrow> translateBatchLoop xs loc src provider adapter bsize i0 tot w
          = translateBatchLoop xs loc src provider adapter bsize (i0 + bsize) (tot + length ts')
              (w\<lparr>calls := calls w @
                    [CallTranslateBatch (map toItem (take bsize (drop i0 xs))) src loc,
                     CallSave (cliTranslationsToSave loc (take bsize (drop i0 xs)) ts')],
                 db := d2\<rparr>))
   \<and> (0 < bsize
        \<and> (\<forall>its. \<exists>answer. provider its src loc = Inr answer)
        \<and> (\<forall>d rows. fst (saveTranslations adapter d rows) = None)
      \<longrightarrow> (\<exists>n w'. translateBatchLoop xs loc src provider adapter bsize i0 tot w = Some (Inr n, w')))
   \<and> (batch \<noteq> [] \<and> length batch \<le> bsize
        \<and> provider (map toItem batch) src loc = Inr ts'
        \<and> saveTranslations adapter (db w) (cliTranslationsToSave loc batch ts') = (None, d2)
      \<longrightarrow> translateBatchLoop batch loc src provider adapter bsize 0 0 w
          = Some (Inr (length ts'),
                  w\<lparr>db := d2,
                    calls := calls w @ [CallTranslateBatch (map toItem batch) src loc,
                                        CallSave (cliTranslationsToSave loc batch ts')]\<rparr>))"
proof -
  have a1: "length (viewTranslationsToSave H loc sent ts) = length sent"
    by (simp add: viewTranslationsToSave_def)
  have a2: "length (cliTranslationsToSave loc batch ts') = length batch"
    by (simp add: cliTranslationsToSave_def)
  have a3: "\<forall>i < length sent.
          viewTranslationsToSave H loc sent ts ! i
          = \<lparr>content_type = contentType (sent ! i), content_id = contentId (sent ! i),
             translated_text = (if i < length ts then Some (ts ! i) else None),
             source_hash = H (item_text (sent ! i)),
             row_locale = loc, original_text = item_text (sent ! i)\<rparr>"
    by (simp add: nth_viewTranslationsToSave)
  have a4: "\<forall>i < length batch.
          cliTranslationsToSave loc batch ts' ! i
          = \<lparr>content_type = contentType (batch ! i), content_id = contentId (batch ! i),
             translated_text = (if i < length ts' then Some (ts' ! i) else None),
             source_hash = sourceHash (batch ! i),
             row_locale = loc, original_text = item_text (batch ! i)\<rparr>"
    by (simp add: nth_cliTranslationsToSave)
  have a5: "\<forall>i < length sent.
          (\<forall>j. i < j \<and> j < length sent \<longrightarrow>
               cacheKey (contentType (sent ! j)) (contentId (sent ! j))
               \<noteq> cacheKey (contentType (sent ! i)) (contentId (sent ! i))) \<longrightarrow>
          addToCache sent ts c0 (cacheKey (contentType (sent ! i)) (contentId (sent ! i)))
          = Some (if i < length ts then Some (ts ! i) else None)"
  proof (intro allI impI)
    fix i assume "i < length sent"
      and "\<forall>j. i < j \<and> j < length sent \<longrightarrow>
               cacheKey (contentType (sent ! j)) (contentId (sent ! j))
               \<noteq> cacheKey (contentType (sent ! i)) (contentId (sent ! i))"
    then have "addToCache sent ts c0 (cacheKey (contentType (sent ! i)) (contentId (sent ! i)))
          = Some (js_nth ts i)"
      by (rule addToCache_nth)
    then show "addToCache sent ts c0 (cacheKey (contentType (sent ! i)) (contentId (sent ! i)))
          = Some (if i < length ts then Some (ts ! i) else None)"
      by (simp add: js_nth_def)
  qed
  have a6: "\<forall>k. k \<notin> (\<lambda>item. cacheKey (contentType item) (contentId item)) ` set sent \<longrightarrow>
          addToCache sent ts c0 k = c0 k"
    by (simp add: addToCache_other)
  have a7: "snd (partitionItems cachedMap items)
       = filter (\<lambda>item. \<not> truthy (js_get cachedMap (cacheKey (contentType item) (contentId item))))
                items"
    by (rule snd_partitionItems)
  have a8: "getCachedTranslations (database config) (db st) items (Some loc) = Inr cachedResults
        \<and> partitionItems (cachedMapOf cachedResults) items = (newCache, uncachedItems)
        \<and> uncachedItems \<noteq> []
        \<and> llm config uncachedItems defaultLocale loc = Inr ts
        \<and> saveTranslations (database config) (db st)
              (viewTranslationsToSave H loc uncachedItems ts) = (None, d')
      \<longrightarrow> translateFresh H config now viewName loc defaultLocale items st
          = st\<lparr>db := d',
               calls := calls st @ [CallGetCached items (Some loc),
                                    CallTranslateBatch uncachedItems defaultLocale loc,
                                    CallSave (viewTranslationsToSave H loc uncachedItems ts)],
               cache := addToCache uncachedItems ts newCache,
               isTranslating := False,
               localStorage := (localStorage st)(metadataKey viewName loc \<mapsto>
                  \<lparr>contentHash = viewContentHash H items, lastTranslated = now, metaLocale = loc,
                   itemCount = length items\<rparr>)\<rparr>"
    by (intro impI, elim conjE) (rule translateFresh_sends_uncached; assumption)
  have a9: "i0 < length xs
        \<and> provider (map toItem (take bsize (drop i0 xs))) src loc = Inr ts'
        \<and> saveTranslations adapter (db w)
              (cliTranslationsToSave loc (take bsize (drop i0 xs)) ts') = (None, d2)
      \<longrightarrow> translateBatchLoop xs loc src provider adapter bsize i0 tot w
          = translateBatchLoop xs loc src provider adapter bsize (i0 + bsize) (tot + length ts')
              (w\<lparr>calls := calls w @
                    [CallTranslateBatch (map toItem (take bsize (drop i0 xs))) src loc,
                     CallSave (cliTranslationsToSave loc (take bsize (drop i0 xs)) ts')],
                 db := d2\<rparr>)"
    by (intro impI, elim conjE) (rule translateBatchLoop_step; assumption)
  have a10: "0 < bsize
        \<and> (\<forall>its. \<exists>answer. provider its src loc = Inr answer)
        \<and> (\<forall>d rows. fst (saveTranslations adapter d rows) = None)
      \<longrightarrow> (\<exists>n w'. translateBatchLoop xs loc src provider adapter bsize i0 tot w = Some (Inr n, w'))"
    by (intro impI, elim conjE) (rule translateBatchLoop_returns; assumption)
  have a11: "batch \<noteq> [] \<and> length batch \<le> bsize
        \<and> provider (map toItem batch) src loc = Inr ts'
        \<and> saveTranslations adapter (db w) (cliTranslationsToSave loc batch ts') = (None, d2)
      \<longrightarrow> translateBatchLoop batch loc src provider adapter bsize 0 0 w
          = Some (Inr (length ts'),
                  w\<lparr>db := d2,
                    calls := calls w @ [CallTranslateBatch (map toItem batch) src loc,
                                        CallSave (cliTranslationsToSave loc batch ts')]\<rparr>)"
    by (intro impI, elim conjE) (rule translateBatchLoop_any_count; assumption)
  show ?thesis
    by (intro conjI) (fact a1 a2 a3 a4 a5 a6 a7 a8 a9 a10 a11)+
qed


theorem count_mismatch_pairs_by_position_witness:
  "\<forall>H. (1::nat) < length [greeting, farewell]
     \<and> viewTranslationsToSave H ''es'' [greeting, farewell] [''uno''] ! 1
         = \<lparr>content_type = ''farewell'', content_id = ''2'', translated_text = None,
            source_hash = H ''Bye'', row_locale = ''es'', original_text = ''Bye''\<rparr>
     \<and> length (viewTranslationsToSave H ''es'' [greeting, farewell] [''uno'']) = 2
     \<and> (1::nat) < length twoGaps
     \<and> cliTranslationsToSave ''es'' twoGaps [''uno''] ! 1
         = \<lparr>content_type = ''farewell'', content_id = ''2'', translated_text = None,
            source_hash = ''h2'', row_locale = ''es'', original_text = ''Bye''\<rparr>
     \<and> getCachedTranslations (database \<lparr>database = tableAdapter None, llm = twoAnswerProvider\<rparr>)
           (db (emptyView [freshRow H])) [greeting, farewell] (Some ''es'')
         = Inr [\<lparr>content_type = ''greeting'', content_id = ''1'', translated_text = Some ''Hola'',
                  source_hash = cliSourceHash H ''Hello''\<rparr>]
     \<and> snd (partitionItems
              (cachedMapOf [\<lparr>content_type = ''greeting'', content_id = ''1'',
                              translated_text = Some ''Hola'',
                              source_hash = cliSourceHash H ''Hello''\<rparr>])
              [greeting, farewell]) = [farewell]
     \<and> llm \<lparr>database = tableAdapter None, llm = twoAnswerProvider\<rparr> [farewell] ''en'' ''es''
         = Inr [''uno'', ''dos'']
     \<and> addToCache [farewell] [''uno'', ''dos''] [''greeting:1'' \<mapsto> Some ''Hola'']
           (cacheKey ''farewell'' ''2'') = Some (Some ''uno'')
     \<and> addToCache [farewell] [''uno'', ''dos''] [''greeting:1'' \<mapsto> Some ''Hola'']
           ''greeting:1'' = Some (Some ''Hola'')
     \<and> calls (translateFresh H \<lparr>database = tableAdapter None, llm = twoAnswerProvider\<rparr>
                 ''t1'' ''feed'' ''es'' ''en'' [greeting, farewell] (emptyView [freshRow H]))
         = [CallGetCached [greeting, farewell] (Some ''es''),
            CallTranslateBatch [farewell] ''en'' ''es'',
            CallSave [farewellRow H]]
     \<and> db (translateFresh H \<lparr>database = tableAdapter None, llm = twoAnswerProvider\<rparr>
                 ''t1'' ''feed'' ''es'' ''en'' [greeting, farewell] (emptyView [freshRow H]))
         = [freshRow H, farewellRow H]
     \<and> js_get (cache (translateFresh H \<lparr>database = tableAdapter None, llm = twoAnswerProvider\<rparr>
                 ''t1'' ''feed'' ''es'' ''en'' [greeting, farewell] (emptyView [freshRow H])))
           ''farewell:2'' = Some ''uno''
     \<and> js_get (cache (translateFresh H \<lparr>database = tableAdapter None, llm = twoAnswerProvider\<rparr>
                 ''t1'' ''feed'' ''es'' ''en'' [greeting, farewell] (emptyView [freshRow H])))
           ''greeting:1'' = Some ''Hola''
     \<and> (\<exists>n w'. translateBatchLoop twoGaps ''es'' ''en'' twoAnswerProvider (tableAdapter None) 1 0 0
                  \<lparr>db = [], calls = []\<rparr> = Some (Inr n, w'))
     \<and> translateBatchLoop twoGaps ''es'' ''en'' twoAnswerProvider (tableAdapter None) 1 0 0
           \<lparr>db = [], calls = []\<rparr>
         = Some (Inr 4,
                 \<lparr>db = unoRows,
                  calls = [CallTranslateBatch [greeting] ''en'' ''es'', CallSave [unoRows ! 0],
                           CallTranslateBatch [farewell] ''en'' ''es'', CallSave [unoRows ! 1]]\<rparr>)
     \<and> twoGaps \<noteq> [] \<and> length twoGaps \<le> 20
     \<and> oneAnswerProvider (map toItem twoGaps) ''en'' ''es'' = Inr [''uno'']
     \<and> saveTranslations (tableAdapter None) (db \<lparr>db = [], calls = []\<rparr>)
           (cliTranslationsToSave ''es'' twoGaps [''uno'']) = (None, twoRows)
     \<and> translateBatchLoop twoGaps ''es'' ''en'' oneAnswerProvider (tableAdapter None) 20 0 0
           \<lparr>db = [], calls = []\<rparr>
         = Some (Inr 1,
                 \<lparr>db = twoRows,
                  calls = [CallTranslateBatch [greeting, farewell] ''en'' ''es'', CallSave twoRows]\<rparr>)"
proof
  fix H
  let ?cfg = "\<lparr>database = tableAdapter None, llm = twoAnswerProvider\<rparr>"
  let ?st = "emptyView [freshRow H]"
  let ?cached = "[\<lparr>content_type = ''greeting'', content_id = ''1'', translated_text = Some ''Hola'',
                  source_hash = cliSourceHash H ''Hello''\<rparr>]"
  let ?w0 = "\<lparr>db = ([] :: SaveRow list), calls = []\<rparr>"
  let ?w1 = "?w0\<lparr>calls := calls ?w0 @
                    [CallTranslateBatch (map toItem (take 1 (drop 0 twoGaps))) ''en'' ''es'',
                     CallSave (cliTranslationsToSave ''es'' (take 1 (drop 0 twoGaps)) [''uno'', ''dos''])],
                 db := [unoRows ! 0]\<rparr>"
  let ?w2 = "?w1\<lparr>calls := calls ?w1 @
                    [CallTranslateBatch (map toItem (take 1 (drop 1 twoGaps))) ''en'' ''es'',
                     CallSave (cliTranslationsToSave ''es'' (take 1 (drop 1 twoGaps)) [''uno'', ''dos''])],
                 db := unoRows\<rparr>"

  txt \<open>fewer answers than items: the row builders\<close>
  note tA = count_mismatch_pairs_by_position [where H = H and loc = "''es''"
      and sent = "[greeting, farewell]" and ts = "[''uno'']" and batch = twoGaps
      and ts' = "[''uno'']" and bsize = 20 and provider = oneAnswerProvider and src = "''en''"
      and adapter = "tableAdapter None" and w = ?w0 and ?d2.0 = twoRows]
  have one: "(1::nat) < length [greeting, farewell]"
    by simp
  from tA [THEN conjunct2, THEN conjunct2, THEN conjunct1] one
  have r1: "viewTranslationsToSave H ''es'' [greeting, farewell] [''uno''] ! 1
         = \<lparr>content_type = ''farewell'', content_id = ''2'', translated_text = None,
            source_hash = H ''Bye'', row_locale = ''es'', original_text = ''Bye''\<rparr>"
    by force
  from tA [THEN conjunct1]
  have r2: "length (viewTranslationsToSave H ''es'' [greeting, farewell] [''uno'']) = 2"
    by simp
  have one': "(1::nat) < length twoGaps"
    by simp
  from tA [THEN conjunct2, THEN conjunct2, THEN conjunct2, THEN conjunct1] one'
  have r4: "cliTranslationsToSave ''es'' twoGaps [''uno''] ! 1
         = \<lparr>content_type = ''farewell'', content_id = ''2'', translated_text = None,
            source_hash = ''h2'', row_locale = ''es'', original_text = ''Bye''\<rparr>"
    by force

  txt \<open>one batch, fewer answers\<close>
  have rows: "cliTranslationsToSave ''es'' twoGaps [''uno''] = twoRows"
    by (simp add: cliTranslationsToSave_def js_nth_def)
  have sv: "saveTranslations (tableAdapter None) (db ?w0)
           (cliTranslationsToSave ''es'' twoGaps [''uno'']) = (None, twoRows)"
    unfolding rows by (simp add: tableAdapter_def tableSave_def upsert_def rowKey_def)
  have pv: "oneAnswerProvider (map toItem twoGaps) ''en'' ''es'' = Inr [''uno'']"
    by simp
  have it: "map toItem twoGaps = [greeting, farewell]"
    by (simp add: toItem_def)
  have ne: "twoGaps \<noteq> [] \<and> length twoGaps \<le> 20"
    by simp
  from tA [THEN conjunct2, THEN conjunct2, THEN conjunct2, THEN conjunct2, THEN conjunct2,
           THEN conjunct2, THEN conjunct2, THEN conjunct2, THEN conjunct2, THEN conjunct2]
    ne pv sv
  have "translateBatchLoop twoGaps ''es'' ''en'' oneAnswerProvider (tableAdapter None) 20 0 0 ?w0
          = Some (Inr (length [''uno'']),
                  ?w0\<lparr>db := twoRows,
                    calls := calls ?w0
                       @ [CallTranslateBatch (map toItem twoGaps) ''en'' ''es'',
                          CallSave (cliTranslationsToSave ''es'' twoGaps [''uno''])]\<rparr>)"
    by blast
  then have r3: "translateBatchLoop twoGaps ''es'' ''en'' oneAnswerProvider (tableAdapter None) 20 0 0 ?w0
         = Some (Inr 1,
                 \<lparr>db = twoRows,
                  calls = [CallTranslateBatch [greeting, farewell] ''en'' ''es'', CallSave twoRows]\<rparr>)"
    unfolding rows it by simp

  txt \<open>a partially cached view, more answers than items\<close>
  note tB = count_mismatch_pairs_by_position [where H = H and loc = "''es''" and ts = "[''uno'', ''dos'']"
      and sent = "[farewell]" and ?c0.0 = "[''greeting:1'' \<mapsto> Some ''Hola'']"
      and cachedMap = "cachedMapOf ?cached" and items = "[greeting, farewell]"
      and config = ?cfg and st = ?st and cachedResults = ?cached
      and newCache = "[''greeting:1'' \<mapsto> Some ''Hola'']" and uncachedItems = "[farewell]"
      and defaultLocale = "''en''" and d' = "[freshRow H, farewellRow H]"
      and now = "''t1''" and viewName = "''feed''"
      and ?i0.0 = 0 and xs = twoGaps and provider = twoAnswerProvider and bsize = 1
      and src = "''en''" and adapter = "tableAdapter None" and w = ?w0 and tot = 0
      and ts' = "[''uno'', ''dos'']" and ?d2.0 = "[unoRows ! 0]"]
  have g: "getCachedTranslations (database ?cfg) (db ?st) [greeting, farewell] (Some ''es'') = Inr ?cached"
    by (simp add: tableAdapter_def tableGet_def)
  have pt: "partitionItems (cachedMapOf ?cached) [greeting, farewell]
      = ([''greeting:1'' \<mapsto> Some ''Hola''], [farewell])"
    by (simp add: partitionItems_def cachedMapOf_def cacheKey_def js_get_def truthy_def)
  have un: "[farewell] \<noteq> []"
    by simp
  have l: "llm ?cfg [farewell] ''en'' ''es'' = Inr [''uno'', ''dos'']"
    by simp
  have vrows: "viewTranslationsToSave H ''es'' [farewell] [''uno'', ''dos''] = [farewellRow H]"
    by (simp add: viewTranslationsToSave_def js_nth_def viewSourceHash_def)
  have s2: "saveTranslations (database ?cfg) (db ?st)
              (viewTranslationsToSave H ''es'' [farewell] [''uno'', ''dos''])
            = (None, [freshRow H, farewellRow H])"
    unfolding vrows by (simp add: tableAdapter_def tableSave_def upsert_def rowKey_def)
  from tB [THEN conjunct2, THEN conjunct2, THEN conjunct2, THEN conjunct2, THEN conjunct2,
           THEN conjunct2, THEN conjunct1]
  have "snd (partitionItems (cachedMapOf ?cached) [greeting, farewell])
       = filter (\<lambda>item. \<not> truthy (js_get (cachedMapOf ?cached)
                                   (cacheKey (contentType item) (contentId item))))
                [greeting, farewell]" .
  then have sp: "snd (partitionItems (cachedMapOf ?cached) [greeting, farewell]) = [farewell]"
    by (simp add: cachedMapOf_def cacheKey_def js_get_def truthy_def)
  from tB [THEN conjunct2, THEN conjunct2, THEN conjunct2, THEN conjunct2, THEN conjunct2,
           THEN conjunct2, THEN conjunct2, THEN conjunct1] g pt un l s2
  have f: "translateFresh H ?cfg ''t1'' ''feed'' ''es'' ''en'' [greeting, farewell] ?st
      = ?st\<lparr>db := [freshRow H, farewellRow H],
               calls := calls ?st @ [CallGetCached [greeting, farewell] (Some ''es''),
                                    CallTranslateBatch [farewell] ''en'' ''es'',
                                    CallSave (viewTranslationsToSave H ''es'' [farewell] [''uno'', ''dos''])],
               cache := addToCache [farewell] [''uno'', ''dos''] [''greeting:1'' \<mapsto> Some ''Hola''],
               isTranslating := False,
               localStorage := (localStorage ?st)(metadataKey ''feed'' ''es'' \<mapsto>
                  \<lparr>contentHash = viewContentHash H [greeting, farewell], lastTranslated = ''t1'',
                   metaLocale = ''es'', itemCount = length [greeting, farewell]\<rparr>)\<rparr>"
    by blast
  have k1: "addToCache [farewell] [''uno'', ''dos''] [''greeting:1'' \<mapsto> Some ''Hola'']
              (cacheKey ''farewell'' ''2'') = Some (Some ''uno'')"
    using tB [THEN conjunct2, THEN conjunct2, THEN conjunct2, THEN conjunct2, THEN conjunct1,
              rule_format, of 0]
    by simp
  have k2: "addToCache [farewell] [''uno'', ''dos''] [''greeting:1'' \<mapsto> Some ''Hola'']
              ''greeting:1'' = Some (Some ''Hola'')"
    using tB [THEN conjunct2, THEN conjunct2, THEN conjunct2, THEN conjunct2, THEN conjunct2,
              THEN conjunct1, rule_format, of "''greeting:1''"]
    by (simp add: cacheKey_def)
  have f1: "calls (translateFresh H ?cfg ''t1'' ''feed'' ''es'' ''en'' [greeting, farewell] ?st)
         = [CallGetCached [greeting, farewell] (Some ''es''),
            CallTranslateBatch [farewell] ''en'' ''es'',
            CallSave [farewellRow H]]"
    unfolding f vrows by simp
  have f2: "db (translateFresh H ?cfg ''t1'' ''feed'' ''es'' ''en'' [greeting, farewell] ?st)
         = [freshRow H, farewellRow H]"
    unfolding f by simp
  have f3: "js_get (cache (translateFresh H ?cfg ''t1'' ''feed'' ''es'' ''en'' [greeting, farewell] ?st))
           ''farewell:2'' = Some ''uno''"
    unfolding f using k1 by (simp add: js_get_def cacheKey_def)
  have f4: "js_get (cache (translateFresh H ?cfg ''t1'' ''feed'' ''es'' ''en'' [greeting, farewell] ?st))
           ''greeting:1'' = Some ''Hola''"
    unfolding f using k2 by (simp add: js_get_def)

  txt \<open>the batch engine, two batches with more answers than items\<close>
  have b0: "take 1 (drop 0 twoGaps) = [twoGaps ! 0]" and b1: "take 1 (drop 1 twoGaps) = [twoGaps ! 1]"
    by simp_all
  have p0: "twoAnswerProvider (map toItem (take 1 (drop 0 twoGaps))) ''en'' ''es'' = Inr [''uno'', ''dos'']"
    by simp
  have s0: "saveTranslations (tableAdapter None) (db ?w0)
              (cliTranslationsToSave ''es'' (take 1 (drop 0 twoGaps)) [''uno'', ''dos'']) = (None, [unoRows ! 0])"
    unfolding b0
    by (simp add: cliTranslationsToSave_def js_nth_def tableAdapter_def tableSave_def upsert_def rowKey_def)
  have i0: "(0::nat) < length twoGaps"
    by simp
  have len: "length [''uno'', ''dos''] = 2"
    by simp
  have ar: "(0::nat) + 1 = 1" "(0::nat) + 2 = 2" "(1::nat) + 1 = 2" "(2::nat) + 2 = 4"
    by simp_all
  from tB [THEN conjunct2, THEN conjunct2, THEN conjunct2, THEN conjunct2, THEN conjunct2,
           THEN conjunct2, THEN conjunct2, THEN conjunct2, THEN conjunct1] i0 p0 s0
  have "translateBatchLoop twoGaps ''es'' ''en'' twoAnswerProvider (tableAdapter None) 1 0 0 ?w0
      = translateBatchLoop twoGaps ''es'' ''en'' twoAnswerProvider (tableAdapter None) 1 (0 + 1)
          (0 + length [''uno'', ''dos'']) ?w1"
    by blast
  then have st0: "translateBatchLoop twoGaps ''es'' ''en'' twoAnswerProvider (tableAdapter None) 1 0 0 ?w0
      = translateBatchLoop twoGaps ''es'' ''en'' twoAnswerProvider (tableAdapter None) 1 1 2 ?w1"
    unfolding len ar .
  note tC = count_mismatch_pairs_by_position [where loc = "''es''"
      and ?i0.0 = 1 and xs = twoGaps and provider = twoAnswerProvider and bsize = 1
      and src = "''en''" and adapter = "tableAdapter None" and w = ?w1 and tot = 2
      and ts' = "[''uno'', ''dos'']" and ?d2.0 = unoRows]
  have p1: "twoAnswerProvider (map toItem (take 1 (drop 1 twoGaps))) ''en'' ''es'' = Inr [''uno'', ''dos'']"
    by simp
  have s1: "saveTranslations (tableAdapter None) (db ?w1)
              (cliTranslationsToSave ''es'' (take 1 (drop 1 twoGaps)) [''uno'', ''dos'']) = (None, unoRows)"
    unfolding b1
    by (simp add: cliTranslationsToSave_def js_nth_def tableAdapter_def tableSave_def upsert_def rowKey_def)
  from tC [THEN conjunct2, THEN conjunct2, THEN conjunct2, THEN conjunct2, THEN conjunct2,
           THEN conjunct2, THEN conjunct2, THEN conjunct2, THEN conjunct1] one' p1 s1
  have "translateBatchLoop twoGaps ''es'' ''en'' twoAnswerProvider (tableAdapter None) 1 1 2 ?w1
      = translateBatchLoop twoGaps ''es'' ''en'' twoAnswerProvider (tableAdapter None) 1 (1 + 1)
          (2 + length [''uno'', ''dos'']) ?w2"
    by blast
  then have st1: "translateBatchLoop twoGaps ''es'' ''en'' twoAnswerProvider (tableAdapter None) 1 1 2 ?w1
      = translateBatchLoop twoGaps ''es'' ''en'' twoAnswerProvider (tableAdapter None) 1 2 4 ?w2"
    unfolding len ar .
  have fin: "translateBatchLoop twoGaps ''es'' ''en'' twoAnswerProvider (tableAdapter None) 1 2 4 ?w2
      = Some (Inr 4, ?w2)"
    by (subst translateBatchLoop.simps) simp
  from st0 st1 fin
  have "translateBatchLoop twoGaps ''es'' ''en'' twoAnswerProvider (tableAdapter None) 1 0 0 ?w0
      = Some (Inr 4, ?w2)"
    by (simp only:)
  then have run: "translateBatchLoop twoGaps ''es'' ''en'' twoAnswerProvider (tableAdapter None) 1 0 0 ?w0
         = Some (Inr 4,
                 \<lparr>db = unoRows,
                  calls = [CallTranslateBatch [greeting] ''en'' ''es'', CallSave [unoRows ! 0],
                           CallTranslateBatch [farewell] ''en'' ''es'', CallSave [unoRows ! 1]]\<rparr>)"
    by (simp add: toItem_def cliTranslationsToSave_def js_nth_def)
  have always: "\<forall>its. \<exists>answer. twoAnswerProvider its ''en'' ''es'' = Inr answer"
    by simp
  have pos: "(0::nat) < 1"
    by simp
  from tB [THEN conjunct2, THEN conjunct2, THEN conjunct2, THEN conjunct2, THEN conjunct2,
           THEN conjunct2, THEN conjunct2, THEN conjunct2, THEN conjunct2, THEN conjunct1]
    pos always tableAdapter_never_throws [of None]
  have ret: "\<exists>n w'. translateBatchLoop twoGaps ''es'' ''en'' twoAnswerProvider (tableAdapter None) 1 0 0
                  ?w0 = Some (Inr n, w')"
    by blast

  from ne have ne1: "twoGaps \<noteq> []" and ne2: "length twoGaps \<le> 20"
    by simp_all
  show "(1::nat) < length [greeting, farewell]
     \<and> viewTranslationsToSave H ''es'' [greeting, farewell] [''uno''] ! 1
         = \<lparr>content_type = ''farewell'', content_id = ''2'', translated_text = None,
            source_hash = H ''Bye'', row_locale = ''es'', original_text = ''Bye''\<rparr>
     \<and> length (viewTranslationsToSave H ''es'' [greeting, farewell] [''uno'']) = 2
     \<and> (1::nat) < length twoGaps
     \<and> cliTranslationsToSave ''es'' twoGaps [''uno''] ! 1
         = \<lparr>content_type = ''farewell'', content_id = ''2'', translated_text = None,
            source_hash = ''h2'', row_locale = ''es'', original_text = ''Bye''\<rparr>
     \<and> getCachedTranslations (database ?cfg) (db ?st) [greeting, farewell] (Some ''es'') = Inr ?cached
     \<and> snd (partitionItems (cachedMapOf ?cached) [greeting, farewell]) = [farewell]
     \<and> llm ?cfg [farewell] ''en'' ''es'' = Inr [''uno'', ''dos'']
     \<and> addToCache [farewell] [''uno'', ''dos''] [''greeting:1'' \<mapsto> Some ''Hola'']
           (cacheKey ''farewell'' ''2'') = Some (Some ''uno'')
     \<and> addToCache [farewell] [''uno'', ''dos''] [''greeting:1'' \<mapsto> Some ''Hola'']
           ''greeting:1'' = Some (Some ''Hola'')
     \<and> calls (translateFresh H ?cfg ''t1'' ''feed'' ''es'' ''en'' [greeting, farewell] ?st)
         = [CallGetCached [greeting, farewell] (Some ''es''),
            CallTranslateBatch [farewell] ''en'' ''es'',
            CallSave [farewellRow H]]
     \<and> db (translateFresh H ?cfg ''t1'' ''feed'' ''es'' ''en'' [greeting, farewell] ?st)
         = [freshRow H, farewellRow H]
     \<and> js_get (cache (translateFresh H ?cfg ''t1'' ''feed'' ''es'' ''en'' [greeting, farewell] ?st))
           ''farewell:2'' = Some ''uno''
     \<and> js_get (cache (translateFresh H ?cfg ''t1'' ''feed'' ''es'' ''en'' [greeting, farewell] ?st))
           ''greeting:1'' = Some ''Hola''
     \<and> (\<exists>n w'. translateBatchLoop twoGaps ''es'' ''en'' twoAnswerProvider (tableAdapter None) 1 0 0
                  ?w0 = Some (Inr n, w'))
     \<and> translateBatchLoop twoGaps ''es'' ''en'' twoAnswerProvider (tableAdapter None) 1 0 0 ?w0
         = Some (Inr 4,
                 \<lparr>db = unoRows,
                  calls = [CallTranslateBatch [greeting] ''en'' ''es'', CallSave [unoRows ! 0],
                           CallTranslateBatch [farewell] ''en'' ''es'', CallSave [unoRows ! 1]]\<rparr>)
     \<and> twoGaps \<noteq> [] \<and> length twoGaps \<le> 20
     \<and> oneAnswerProvider (map toItem twoGaps) ''en'' ''es'' = Inr [''uno'']
     \<and> saveTranslations (tableAdapter None) (db ?w0)
           (cliTranslationsToSave ''es'' twoGaps [''uno'']) = (None, twoRows)
     \<and> translateBatchLoop twoGaps ''es'' ''en'' oneAnswerProvider (tableAdapter None) 20 0 0 ?w0
         = Some (Inr 1,
                 \<lparr>db = twoRows,
                  calls = [CallTranslateBatch [greeting, farewell] ''en'' ''es'', CallSave twoRows]\<rparr>)"
    by (intro conjI) (fact one r1 r2 one' r4 g sp l k1 k2 f1 f2 f3 f4 ret run ne1 ne2 pv sv r3)+
qed

text \<open>
  A provider that returns one string for two items does not make the batch run fail:
  it returns the count 1 after saving a record without translated text for the second
  item.
\<close>

theorem count_mismatch_counterexample:
  "translateBatch twoGaps ''es'' ''en'' oneAnswerProvider (tableAdapter None) 20 \<lparr>db = [], calls = []\<rparr>
   = Some (Inr 1,
           \<lparr>db = twoRows,
            calls = [CallTranslateBatch [greeting, farewell] ''en'' ''es'', CallSave twoRows]\<rparr>)"
  apply (simp add: translateBatch_def)
  apply (subst translateBatchLoop.simps)
  apply (subst translateBatchLoop.simps)
  apply (simp add: logCall_def Let_def toItem_def cliTranslationsToSave_def js_nth_def
      tableAdapter_def tableSave_def upsert_def rowKey_def)
  done

end
